theory Spec2Isabelle
  imports Main
begin

section \<open>Values, errors and the scrapper object\<close>

text \<open>
  The crawl engine is the class \<open>NewsScrapper\<close> of
  \<^verbatim>\<open>app/backend/scrape/news_scrapper.py\<close>. Its attributes are Python values that are
  either \<open>None\<close> or a string, modelled as \<open>string option\<close>. Python's truth test
  (\<open>if v\<close>, \<open>not v\<close>) is false for \<open>None\<close> and for the empty string.
\<close>

datatype error =
    AttributeError
  | TypeError
  | StoreError
  | CollaboratorError
  | BrowserError
  | Exception string

type_synonym time = nat

definition truthy :: "string option \<Rightarrow> bool" where
  "truthy v = (case v of None \<Rightarrow> False | Some s \<Rightarrow> s \<noteq> [])"

record website_row =
  row_login_url :: "string option"
  row_username :: "string option"
  row_password :: "string option"
  row_username_selector :: "string option"
  row_password_selector :: "string option"
  row_submit_button_selector :: "string option"
  row_last_updated :: time

text \<open>The table \<open>websites\<close>, keyed by its primary key \<open>url\<close> (the domain).\<close>

type_synonym websites = "string \<rightharpoonup> website_row"

text \<open>
  A store call opens a connection, executes its statements and commits. Any of the three
  may raise; nothing is committed unless the commit itself returns.
\<close>

datatype fault = NoFault | ConnectFails | ExecuteFails | CommitFails

record config =
  website_url :: string
  domain :: string
  login_url :: "string option"
  username :: "string option"
  password :: "string option"
  username_selector :: "string option"
  password_selector :: "string option"
  submit_button_selector :: "string option"
  crawl :: bool
  max_pages :: int

section \<open>Site configuration: back-fill at startup and merge on write\<close>

text \<open>
  \<open>_update_attributes_from_stored_values\<close> runs the same test for each of the six
  attributes: \<open>if not current_value and stored_value: setattr(...)\<close>.
\<close>

definition backfill :: "string option \<Rightarrow> string option \<Rightarrow> string option" where
  "backfill current_value stored_value =
     (if \<not> truthy current_value \<and> truthy stored_value then stored_value else current_value)"

definition update_attributes_from_stored_values :: "website_row \<Rightarrow> 'a config_scheme \<Rightarrow> 'a config_scheme" where
  "update_attributes_from_stored_values stored_values s =
     s\<lparr>login_url := backfill (login_url s) (row_login_url stored_values),
       username := backfill (username s) (row_username stored_values),
       password := backfill (password s) (row_password stored_values),
       username_selector := backfill (username_selector s) (row_username_selector stored_values),
       password_selector := backfill (password_selector s) (row_password_selector stored_values),
       submit_button_selector :=
         backfill (submit_button_selector s) (row_submit_button_selector stored_values)\<rparr>"

text \<open>
  \<open>_get_stored_domain_info\<close> reads the row of the domain inside \<open>try\<close>; a store error is
  printed and the attributes stay as the caller gave them. No statement is committed, so
  only a failing connection or a failing query matters.
\<close>

definition get_stored_domain_info :: "fault \<Rightarrow> websites \<Rightarrow> 'a config_scheme \<Rightarrow> 'a config_scheme" where
  "get_stored_domain_info f W s =
     (if f = ConnectFails \<or> f = ExecuteFails then s
      else case W (domain s) of
             None \<Rightarrow> s
           | Some stored_values \<Rightarrow> update_attributes_from_stored_values stored_values s)"

text \<open>
  \<open>add_website\<close> has no \<open>try\<close>: a store error propagates. An existing row is updated
  with \<open>COALESCE(:new, old)\<close> per column, a missing row is inserted.
\<close>

definition coalesce :: "'a option \<Rightarrow> 'a option \<Rightarrow> 'a option" where
  "coalesce a b = (case a of None \<Rightarrow> b | Some v \<Rightarrow> Some v)"

definition add_website :: "fault \<Rightarrow> time \<Rightarrow> 'a config_scheme \<Rightarrow> websites \<Rightarrow> error + websites" where
  "add_website f now s W =
     (if f \<noteq> NoFault then Inl StoreError
      else case W (domain s) of
             Some existing \<Rightarrow>
               Inr (W(domain s \<mapsto>
                 \<lparr>row_login_url = coalesce (login_url s) (row_login_url existing),
                  row_username = coalesce (username s) (row_username existing),
                  row_password = coalesce (password s) (row_password existing),
                  row_username_selector =
                    coalesce (username_selector s) (row_username_selector existing),
                  row_password_selector =
                    coalesce (password_selector s) (row_password_selector existing),
                  row_submit_button_selector =
                    coalesce (submit_button_selector s) (row_submit_button_selector existing),
                  row_last_updated = now\<rparr>))
           | None \<Rightarrow>
               Inr (W(domain s \<mapsto>
                 \<lparr>row_login_url = login_url s,
                  row_username = username s,
                  row_password = password s,
                  row_username_selector = username_selector s,
                  row_password_selector = password_selector s,
                  row_submit_button_selector = submit_button_selector s,
                  row_last_updated = now\<rparr>)))"

section \<open>The visited-URL ledger\<close>

text \<open>
  The table \<open>visited_urls\<close> with primary key \<open>(url, domain)\<close>: the rows in insertion
  order, each \<open>((url, domain), (visit_date, is_article))\<close>, \<open>is_article\<close> nullable.
\<close>

type_synonym ledger = "((string \<times> string) \<times> (time \<times> bool option)) list"

text \<open>\<open>INSERT ... ON CONFLICT (url, domain) DO NOTHING\<close> for one row.\<close>

definition insert_ignore :: "string \<Rightarrow> time \<Rightarrow> string \<times> bool option \<Rightarrow> ledger \<Rightarrow> ledger" where
  "insert_ignore dmn now row L =
     (if (fst row, dmn) \<in> set (map fst L) then L
      else L @ [((fst row, dmn), (now, snd row))])"

definition insert_batch :: "string \<Rightarrow> time \<Rightarrow> (string \<times> bool option) list \<Rightarrow> ledger \<Rightarrow> ledger" where
  "insert_batch dmn now url_tuples L = fold (insert_ignore dmn now) url_tuples L"

text \<open>
  The body of the \<open>try\<close> block of \<open>add_visited_urls\<close>: connect, create the table if it is
  missing, insert the batch, commit. An exception before the commit returns leaves the
  table as it was.
\<close>

definition insert_transaction ::
  "fault \<Rightarrow> string \<Rightarrow> time \<Rightarrow> (string \<times> bool option) list \<Rightarrow> ledger \<Rightarrow> error + ledger" where
  "insert_transaction f dmn now url_tuples L =
     (if f = ConnectFails then Inl StoreError
      else if f = ExecuteFails then Inl StoreError
      else if f = CommitFails then Inl StoreError
      else Inr (insert_batch dmn now url_tuples L))"

text \<open>
  \<open>add_visited_urls\<close>: an empty batch returns at once; otherwise the transaction runs
  inside \<open>try ... except Exception\<close>, whose handler prints and falls through.
\<close>

definition add_visited_urls ::
  "fault \<Rightarrow> string \<Rightarrow> time \<Rightarrow> (string \<times> bool option) list \<Rightarrow> ledger \<Rightarrow> error + ledger" where
  "add_visited_urls f dmn now url_tuples L =
     (if url_tuples = [] then Inr L
      else case insert_transaction f dmn now url_tuples L of
             Inl e \<Rightarrow> Inr L
           | Inr L' \<Rightarrow> Inr L')"

text \<open>
  \<open>get_visited_urls\<close>: the \<open>(url, is_article)\<close> pairs of the domain, or \<open>None\<close> when the
  store raises (the handler prints and the method ends without a \<open>return\<close>).
\<close>

definition get_visited_urls :: "fault \<Rightarrow> string \<Rightarrow> ledger \<Rightarrow> (string \<times> bool option) list option" where
  "get_visited_urls f dmn L =
     (if f = ConnectFails \<or> f = ExecuteFails then None
      else Some (map (\<lambda>r. (fst (fst r), snd (snd r))) (filter (\<lambda>r. snd (fst r) = dmn) L)))"

section \<open>The membership cache\<close>

text \<open>
  Modelled from the spec: the class \<open>ScalableBloomFilter\<close> of the package
  \<open>pybloom_live\<close>, which the engine instantiates and which is not part of the sources.
  The spec describes it as a capacity-tiered set with online growth, a chain of
  fixed-capacity filters to which a new tier is added once the load of the last one
  crosses its threshold, answering membership with no false negatives. A tier is a set
  of bit positions; the positions of a key in a tier of a given capacity are given by
  \<open>make_hashes\<close>, which stays a parameter.
\<close>

record bloom =
  capacity :: nat
  count :: nat
  bits :: "nat set"

record scalable_bloom =
  make_hashes :: "nat \<Rightarrow> string \<Rightarrow> nat list"
  initial_capacity :: nat
  scale :: nat
  filters :: "bloom list"

definition bloom_contains :: "(nat \<Rightarrow> string \<Rightarrow> nat list) \<Rightarrow> bloom \<Rightarrow> string \<Rightarrow> bool" where
  "bloom_contains h b key = list_all (\<lambda>k. k \<in> bits b) (h (capacity b) key)"

definition bloom_add :: "(nat \<Rightarrow> string \<Rightarrow> nat list) \<Rightarrow> bloom \<Rightarrow> string \<Rightarrow> bloom" where
  "bloom_add h b key = b\<lparr>count := count b + 1, bits := bits b \<union> set (h (capacity b) key)\<rparr>"

definition sbf_contains :: "scalable_bloom \<Rightarrow> string \<Rightarrow> bool" where
  "sbf_contains F key = list_ex (\<lambda>b. bloom_contains (make_hashes F) b key) (rev (filters F))"

definition new_bloom :: "nat \<Rightarrow> bloom" where
  "new_bloom c = \<lparr>capacity = c, count = 0, bits = {}\<rparr>"

definition sbf_add :: "scalable_bloom \<Rightarrow> string \<Rightarrow> scalable_bloom" where
  "sbf_add F key =
     (if sbf_contains F key then F
      else
        let fs = (if filters F = [] then [new_bloom (initial_capacity F)]
                  else if capacity (last (filters F)) \<le> count (last (filters F))
                       then filters F @ [new_bloom (capacity (last (filters F)) * scale F)]
                       else filters F)
        in F\<lparr>filters := butlast fs @ [bloom_add (make_hashes F) (last fs) key]\<rparr>)"

text \<open>
  The constructor creates an empty filter and adds the URL of every ledger row of the
  domain: \<open>for url, _ in self.get_visited_urls(): self.visited_urls.add(url)\<close>.
\<close>

definition populate :: "scalable_bloom \<Rightarrow> (string \<times> bool option) list \<Rightarrow> scalable_bloom" where
  "populate F rows = fold (\<lambda>row F'. sbf_add F' (fst row)) rows F"

section \<open>Collaborators\<close>

text \<open>
  The browser, the content extraction and the classification service are outside the
  engine. One record holds what they answer. Link extraction returns, in document order,
  dictionaries with the keys \<open>href\<close> and \<open>text\<close>; the triage answers one URL or a list of
  URLs; the classification answers an object with a classification, or \<open>None\<close>; each
  service call may raise. The answers for a page are indexed by its URL. \<open>goto\<close> stands
  for \<open>page.goto(url)\<close> with the wait for the load state that follows it,
  \<open>extract_links\<close> for the extraction of the links and the rendering of the triage
  prompt, \<open>extract_formatted_text\<close> for the extraction of the text and the rendering of
  the classification prompt; each of them may raise as well.
\<close>

record link =
  href :: string
  anchor_text :: string

datatype likely = OneUrl string | UrlList "string list"

record article =
  classification :: "bool option"
  title :: string
  body :: string

record world =
  hash_positions :: "nat \<Rightarrow> string \<Rightarrow> nat list"
  detect_login_url :: "error + string option"
  detect_selectors :: "string \<Rightarrow> error + (string option \<times> string option \<times> string option)"
  submit_login_form :: "string option \<Rightarrow> error option"
  context_cookies :: "string list"
  goto :: "string \<Rightarrow> error option"
  extract_links :: "string \<Rightarrow> error + link list"
  extract_formatted_text :: "string \<Rightarrow> error option"
  select_likely_URLS :: "link list \<Rightarrow> error + likely"
  classify_and_extract_news_article :: "string \<Rightarrow> error + article option"

record scrapper = config +
  session_cookies :: "string list option"
  logged_in :: bool
  visited_urls :: scalable_bloom

section \<open>Login resolution\<close>

definition can_authenticate :: "'a config_scheme \<Rightarrow> bool" where
  "can_authenticate s = (username s \<noteq> None \<and> password s \<noteq> None)"

text \<open>
  \<open>_initialize_login\<close> returns whether a login can be attempted; every failure on the
  way is caught and answered with \<open>False\<close>. \<open>get_login_url\<close> and \<open>get_login_selectors\<close>
  return what the service detected.
\<close>

definition get_login_url :: "world \<Rightarrow> error + string option" where
  "get_login_url w = detect_login_url w"

definition get_login_selectors ::
  "world \<Rightarrow> string \<Rightarrow> error + (string option \<times> string option \<times> string option)" where
  "get_login_selectors w url = detect_selectors w url"

definition resolve_login_url :: "world \<Rightarrow> 'a config_scheme \<Rightarrow> error + 'a config_scheme" where
  "resolve_login_url w s =
     (if \<not> truthy (login_url s)
      then case get_login_url w of
             Inl e \<Rightarrow> Inl e
           | Inr u \<Rightarrow> Inr (s\<lparr>login_url := u\<rparr>)
      else Inr s)"

definition initialize_login :: "world \<Rightarrow> 'a config_scheme \<Rightarrow> 'a config_scheme \<times> bool" where
  "initialize_login w s =
     (case resolve_login_url w s of
        Inl e \<Rightarrow> (s, False)
      | Inr s1 \<Rightarrow>
          (case login_url s1 of
             None \<Rightarrow> (s1, False)
           | Some url \<Rightarrow>
               if \<not> truthy (username_selector s1) \<or> \<not> truthy (password_selector s1)
                  \<or> \<not> truthy (submit_button_selector s1)
               then (case get_login_selectors w url of
                       Inl e \<Rightarrow> (s1, False)
                     | Inr (u, p, b) \<Rightarrow>
                         if \<not> (truthy u \<and> truthy p \<and> truthy b) then (s1, False)
                         else (s1\<lparr>username_selector := u, password_selector := p,
                                  submit_button_selector := b\<rparr>, True))
               else (s1, True)))"

definition verify_session :: "world \<Rightarrow> scrapper \<Rightarrow> error + scrapper" where
  "verify_session w s =
     (let s1 = s\<lparr>session_cookies := Some (context_cookies w)\<rparr>
      in if context_cookies w = [] then Inl (Exception ''No session cookies found after login'')
         else Inr (s1\<lparr>logged_in := True\<rparr>))"

definition login :: "world \<Rightarrow> scrapper \<Rightarrow> error + scrapper" where
  "login w s =
     (case submit_login_form w (login_url s) of
        Some e \<Rightarrow> Inl e
      | None \<Rightarrow> verify_session w s)"

text \<open>The last statement of the constructor.\<close>

definition authenticate :: "world \<Rightarrow> scrapper \<Rightarrow> error + scrapper" where
  "authenticate w s =
     (if can_authenticate s
      then case initialize_login w s of
             (s1, True) \<Rightarrow> login w s1
           | (s1, False) \<Rightarrow> Inr s1
      else Inr s)"

text \<open>
  The constructor: the arguments become attributes (\<open>domain\<close> holds
  \<open>_extract_domain(website_url)\<close>), the stored row of the domain fills attributes in, the
  cache is built from the ledger rows of the domain, then the login is resolved.
  Iterating the \<open>None\<close> that \<open>get_visited_urls\<close> answers on a store error raises.
\<close>

definition empty_filter :: "world \<Rightarrow> scalable_bloom" where
  "empty_filter w = \<lparr>make_hashes = hash_positions w, initial_capacity = 100, scale = 4, filters = []\<rparr>"

definition init_attributes :: "world \<Rightarrow> fault \<Rightarrow> fault \<Rightarrow> websites \<Rightarrow> ledger \<Rightarrow> config \<Rightarrow> error + scrapper" where
  "init_attributes w f_info f_visited W L args =
     (let c = get_stored_domain_info f_info W args
      in case get_visited_urls f_visited (domain c) L of
           None \<Rightarrow> Inl TypeError
         | Some rows \<Rightarrow>
             Inr \<lparr>website_url = website_url c, domain = domain c, login_url = login_url c,
                  username = username c, password = password c,
                  username_selector = username_selector c,
                  password_selector = password_selector c,
                  submit_button_selector = submit_button_selector c,
                  crawl = crawl c, max_pages = max_pages c,
                  session_cookies = None, logged_in = False,
                  visited_urls = populate (empty_filter w) rows\<rparr>)"

text \<open>
  Between the cache and the login the constructor starts the browser and opens the site
  (\<open>self.page.goto(self.website_url)\<close>), outside any \<open>try\<close>.
\<close>

definition init :: "world \<Rightarrow> fault \<Rightarrow> fault \<Rightarrow> websites \<Rightarrow> ledger \<Rightarrow> config \<Rightarrow> error + scrapper" where
  "init w f_info f_visited W L args =
     (case init_attributes w f_info f_visited W L args of
        Inl e \<Rightarrow> Inl e
      | Inr s \<Rightarrow>
          (case goto w (website_url s) of
             Some e \<Rightarrow> Inl e
           | None \<Rightarrow> authenticate w s))"

definition is_url_visited :: "scrapper \<Rightarrow> string \<Rightarrow> bool" where
  "is_url_visited s url = sbf_contains (visited_urls s) url"

section \<open>The crawl\<close>

text \<open>
  \<open>scrape\<close> filters the URLs the triage suggests against the links of the page. For the
  seed page it first builds \<open>url_list = [link['href'] for link in urls]\<close> and tests
  \<open>url in url_list\<close>.
\<close>

definition seed_filter :: "likely \<Rightarrow> link list \<Rightarrow> string list" where
  "seed_filter lucky_urls urls =
     (let url_list = map href urls
      in case lucky_urls of
           UrlList us \<Rightarrow> filter (\<lambda>url. url \<in> set url_list) us
         | OneUrl u \<Rightarrow> if u \<in> set url_list then [u] else [])"

text \<open>
  Inside the loop the test is \<open>url in new_links\<close>, where \<open>new_links\<close> is the list of link
  dictionaries itself. Python's \<open>in\<close> compares with \<open>==\<close>, and a string is never equal
  to a dictionary; the two kinds of value are kept apart by a datatype.
\<close>

datatype pyval = PyStr string | PyDict link

definition loop_filter :: "likely \<Rightarrow> link list \<Rightarrow> string list" where
  "loop_filter new_lucky_urls new_links =
     (case new_lucky_urls of
        UrlList us \<Rightarrow> filter (\<lambda>url. PyStr url \<in> set (map PyDict new_links)) us
      | OneUrl u \<Rightarrow> if PyStr u \<in> set (map PyDict new_links) then [u] else [])"

type_synonym responses = "(string \<times> article option) list"

type_synonym visited_batch = "(string \<times> bool option) list"

text \<open>
  The first \<open>try\<close> block of the loop body: extract the text of the page and classify
  it; a truthy response joins the results; then the URL joins \<open>newly_visited_urls\<close>. An
  exception leaves the block before either \<open>append\<close>.
\<close>

definition classify_current :: "world \<Rightarrow> string \<Rightarrow> responses \<Rightarrow> visited_batch \<Rightarrow> responses \<times> visited_batch" where
  "classify_current w current_url rs newly_visited_urls =
     (case extract_formatted_text w current_url of
        Some e \<Rightarrow> (rs, newly_visited_urls)
      | None \<Rightarrow>
          (case classify_and_extract_news_article w current_url of
             Inl e \<Rightarrow> (rs, newly_visited_urls)
           | Inr response \<Rightarrow>
               ((if response \<noteq> None then rs @ [(current_url, response)] else rs),
                newly_visited_urls @
                  [(current_url,
                    case response of None \<Rightarrow> None | Some a \<Rightarrow> classification a)])))"

text \<open>
  The second \<open>try\<close> block: triage the links of the page and extend the frontier. The
  links themselves were extracted before the block.
\<close>

definition enqueue_links :: "world \<Rightarrow> link list \<Rightarrow> string list \<Rightarrow> string list" where
  "enqueue_links w new_links to_visit =
     (case select_likely_URLS w new_links of
        Inl e \<Rightarrow> to_visit
      | Inr new_lucky_urls \<Rightarrow> to_visit @ loop_filter new_lucky_urls new_links)"

lemma loop_filter_Nil: "loop_filter new_lucky_urls new_links = []"
  by (cases new_lucky_urls) (auto simp: loop_filter_def filter_empty_conv)

lemma enqueue_links_same: "enqueue_links w new_links to_visit = to_visit"
  by (simp add: enqueue_links_def loop_filter_Nil split: sum.split)

text \<open>
  \<open>while to_visit and len(responses) < self.max_pages\<close>. The object \<open>self\<close> is the state
  of the loop and is returned with the results. \<open>page.goto(current_url)\<close> and the
  extraction of the links stand outside the two \<open>try\<close> blocks: when one of them raises,
  the loop and with it \<open>scrape\<close> end with that exception.
\<close>

function crawl_loop ::
  "world \<Rightarrow> scrapper \<Rightarrow> string list \<Rightarrow> responses \<Rightarrow> visited_batch
     \<Rightarrow> error + (responses \<times> visited_batch \<times> scrapper)" where
  "crawl_loop w s [] rs newly_visited_urls = Inr (rs, newly_visited_urls, s)"
| "crawl_loop w s (current_url # to_visit) rs newly_visited_urls =
     (if \<not> int (length rs) < max_pages s then Inr (rs, newly_visited_urls, s)
      else if is_url_visited s current_url then crawl_loop w s to_visit rs newly_visited_urls
      else case goto w current_url of
             Some e \<Rightarrow> Inl e
           | None \<Rightarrow>
               (case classify_current w current_url rs newly_visited_urls of
                  (rs1, newly1) \<Rightarrow>
                    (case extract_links w current_url of
                       Inl e \<Rightarrow> Inl e
                     | Inr new_links \<Rightarrow>
                         crawl_loop w s (enqueue_links w new_links to_visit) rs1 newly1)))"
  by pat_completeness auto
termination
  by (relation "measure (\<lambda>(w, s, to_visit, rs, n). length to_visit)")
     (auto simp: enqueue_links_same)

text \<open>
  Modelled from the spec: the object the triage service answers, a class of
  \<open>app/backend/utils/llm_utils.py\<close> that is not among the sources. By the spec it carries
  \<open>likelyUrls\<close> only, so reading its \<open>classification\<close> raises. The variable \<open>response\<close>
  of \<open>scrape\<close> holds that object until the classification of the seed page returns.
\<close>

datatype response = LikelyResponse likely | ArticleResponse "article option"

text \<open>\<open>response.classification if response else None\<close>.\<close>

fun classification_or_None :: "response \<Rightarrow> error + bool option" where
  "classification_or_None (ArticleResponse None) = Inr None"
| "classification_or_None (ArticleResponse (Some a)) = Inr (classification a)"
| "classification_or_None (LikelyResponse l) = Inl AttributeError"

text \<open>
  The seed page: classification inside \<open>try\<close>; the results and the value of the variable
  \<open>response\<close> afterwards.
\<close>

definition classify_seed :: "world \<Rightarrow> string \<Rightarrow> likely \<Rightarrow> responses \<times> response" where
  "classify_seed w url lucky_urls =
     (case classify_and_extract_news_article w url of
        Inl e \<Rightarrow> ([], LikelyResponse lucky_urls)
      | Inr r \<Rightarrow> ([(url, r)], ArticleResponse r))"

text \<open>
  The end of \<open>scrape\<close>, from the test of \<open>crawl\<close> on: the loop, then the flush of the
  visited batch in one call. An exception of the loop leaves before the flush.
\<close>

definition crawl_and_flush ::
  "world \<Rightarrow> fault \<Rightarrow> time \<Rightarrow> scrapper \<Rightarrow> ledger \<Rightarrow> string list \<Rightarrow> responses \<Rightarrow> bool option
     \<Rightarrow> error + (responses \<times> scrapper \<times> ledger)" where
  "crawl_and_flush w f now s L to_visit rs c =
     (if \<not> crawl s
      then (case add_visited_urls f (domain s) now [(website_url s, c)] L of
              Inl e \<Rightarrow> Inl e
            | Inr L1 \<Rightarrow> Inr (rs, s, L1))
      else (case crawl_loop w s to_visit rs [(website_url s, c)] of
              Inl e \<Rightarrow> Inl e
            | Inr (rs1, newly_visited_urls, s1) \<Rightarrow>
                (case add_visited_urls f (domain s1) now newly_visited_urls L of
                   Inl e \<Rightarrow> Inl e
                 | Inr L1 \<Rightarrow> Inr (rs1, s1, L1))))"

text \<open>
  \<open>scrape\<close>: the seed page is opened, triaged and classified outside any quota test;
  only its classification stands inside a \<open>try\<close>. The call answers the results, the
  object as the call leaves it, and the ledger.
\<close>

definition scrape ::
  "world \<Rightarrow> fault \<Rightarrow> time \<Rightarrow> scrapper \<Rightarrow> ledger \<Rightarrow> error + (responses \<times> scrapper \<times> ledger)" where
  "scrape w f now s L =
     (case goto w (website_url s) of
        Some e \<Rightarrow> Inl e
      | None \<Rightarrow>
     (case extract_links w (website_url s) of
        Inl e \<Rightarrow> Inl e
      | Inr urls \<Rightarrow>
     (case select_likely_URLS w urls of
        Inl e \<Rightarrow> Inl e
      | Inr lucky_urls \<Rightarrow>
     (case extract_formatted_text w (website_url s) of
        Some e \<Rightarrow> Inl e
      | None \<Rightarrow>
     (case classify_seed w (website_url s) lucky_urls of
        (rs, response) \<Rightarrow>
     (case classification_or_None response of
        Inl e \<Rightarrow> Inl e
      | Inr c \<Rightarrow> crawl_and_flush w f now s L (seed_filter lucky_urls urls) rs c))))))"

section \<open>Results achievable and a sample site\<close>

text \<open>
  A dequeued URL yields a result when the cache does not report it and the extraction of
  its text and its classification return a response that is not \<open>None\<close>. The results of a
  frontier are the entries of the URLs that yield one, in the order of the frontier and as
  often as they occur in it; their number is what a crawl without quota would add to the
  results. A URL is navigable when the cache reports it (it is skipped) or the browser
  opens it and the extraction of its links returns.
\<close>

definition yields_result :: "world \<Rightarrow> scrapper \<Rightarrow> string \<Rightarrow> bool" where
  "yields_result w s url =
     (\<not> is_url_visited s url \<and> extract_formatted_text w url = None \<and>
      (case classify_and_extract_news_article w url of
         Inl e \<Rightarrow> False
       | Inr None \<Rightarrow> False
       | Inr (Some a) \<Rightarrow> True))"

definition response_of :: "world \<Rightarrow> string \<Rightarrow> article option" where
  "response_of w url =
     (case classify_and_extract_news_article w url of Inl e \<Rightarrow> None | Inr r \<Rightarrow> r)"

definition frontier_results :: "world \<Rightarrow> scrapper \<Rightarrow> string list \<Rightarrow> responses" where
  "frontier_results w s to_visit =
     map (\<lambda>url. (url, response_of w url)) (filter (yields_result w s) to_visit)"

definition achievable :: "world \<Rightarrow> scrapper \<Rightarrow> string list \<Rightarrow> nat" where
  "achievable w s to_visit = length (filter (yields_result w s) to_visit)"

definition navigable :: "world \<Rightarrow> scrapper \<Rightarrow> string \<Rightarrow> bool" where
  "navigable w s url =
     (is_url_visited s url \<or>
      (goto w url = None \<and>
       (case extract_links w url of Inl e \<Rightarrow> False | Inr new_links \<Rightarrow> True)))"

text \<open>
  A small site for concrete runs: the seed page links to \<open>/a\<close> and \<open>/bad\<close>, the page
  \<open>/a\<close> links to \<open>/c\<close>; the triage of the seed suggests \<open>/a\<close> twice, \<open>/bad\<close> and a URL
  that is on no page; the classification of \<open>/bad\<close> raises; the browser cannot open
  \<open>/gone\<close>; no cookie is set by the login.
\<close>

definition sample_article :: article where
  "sample_article = \<lparr>classification = Some True, title = ''T'', body = ''B''\<rparr>"

definition sample_world :: world where
  "sample_world =
     \<lparr>hash_positions = (\<lambda>c key. [length key mod c, (length key + 7) mod c]),
      detect_login_url = Inr (Some ''https://n.example/login''),
      detect_selectors = (\<lambda>u. Inr (Some ''#user'', Some ''#pass'', Some ''#go'')),
      submit_login_form = (\<lambda>u. None),
      context_cookies = [],
      goto = (\<lambda>u. if u = ''/gone'' then Some BrowserError else None),
      extract_links =
        (\<lambda>u. if u = ''https://n.example''
             then Inr [\<lparr>href = ''/a'', anchor_text = ''A''\<rparr>, \<lparr>href = ''/bad'', anchor_text = ''Bad''\<rparr>]
             else if u = ''/a'' then Inr [\<lparr>href = ''/c'', anchor_text = ''C''\<rparr>]
             else Inr []),
      extract_formatted_text = (\<lambda>u. None),
      select_likely_URLS =
        (\<lambda>ls. if map href ls = [''/a'', ''/bad'']
              then Inr (UrlList [''/a'', ''/bad'', ''/a'', ''/ghost''])
              else Inr (UrlList (map href ls))),
      classify_and_extract_news_article =
        (\<lambda>u. if u = ''/bad'' then Inl CollaboratorError else Inr (Some sample_article))\<rparr>"

definition sample_config :: config where
  "sample_config =
     \<lparr>website_url = ''https://n.example'', domain = ''n.example'', login_url = None,
      username = None, password = None, username_selector = None,
      password_selector = None, submit_button_selector = None,
      crawl = True, max_pages = 25\<rparr>"

definition sample_row :: website_row where
  "sample_row =
     \<lparr>row_login_url = Some ''https://n.example/login'', row_username = Some ''stored-user'',
      row_password = Some ''stored-pass'', row_username_selector = Some ''#user'',
      row_password_selector = Some ''#pass'', row_submit_button_selector = Some ''#go'',
      row_last_updated = 3\<rparr>"

definition sample_scrapper :: scrapper where
  "sample_scrapper =
     \<lparr>website_url = ''https://n.example'', domain = ''n.example'', login_url = None,
      username = None, password = None, username_selector = None,
      password_selector = None, submit_button_selector = None,
      crawl = True, max_pages = 25,
      session_cookies = None, logged_in = False,
      visited_urls = empty_filter sample_world\<rparr>"

section \<open>Properties of the ledger\<close>

lemma insert_ignore_present:
  "(fst row, d) \<in> set (map fst L) \<Longrightarrow> insert_ignore d t row L = L"
  by (simp add: insert_ignore_def)

lemma keys_insert_ignore:
  "set (map fst (insert_ignore d t row L)) = insert (fst row, d) (set (map fst L))"
  by (auto simp: insert_ignore_def)

lemma keys_insert_batch:
  "set (map fst (insert_batch d t b L)) = set (map fst L) \<union> (\<lambda>r. (fst r, d)) ` set b"
  unfolding insert_batch_def
proof (induction b arbitrary: L)
  case Nil
  show ?case by simp
next
  case (Cons r b)
  show ?case by (simp add: Cons.IH keys_insert_ignore del: set_map)
qed

lemma insert_batch_present:
  "\<forall>r \<in> set b. (fst r, d) \<in> set (map fst L) \<Longrightarrow> insert_batch d t b L = L"
  unfolding insert_batch_def
  by (induction b) (simp_all add: insert_ignore_present del: set_map)

lemma insert_batch_append:
  "insert_batch d t (b @ c) L = insert_batch d t c (insert_batch d t b L)"
  by (simp add: insert_batch_def)

lemma insert_batch_twice:
  "insert_batch d t2 b (insert_batch d t1 b L) = insert_batch d t1 b L"
  by (rule insert_batch_present) (simp add: keys_insert_batch del: set_map)

lemma insert_batch_duplicate:
  "insert_batch d t (b1 @ p # b2 @ p # b3) L = insert_batch d t (b1 @ p # b2 @ b3) L"
proof -
  have "insert_batch d t [p] (insert_batch d t (b1 @ p # b2) L) = insert_batch d t (b1 @ p # b2) L"
    by (rule insert_batch_present) (simp add: keys_insert_batch del: set_map)
  then have "insert_batch d t ((b1 @ p # b2) @ [p]) L = insert_batch d t (b1 @ p # b2) L"
    by (simp only: insert_batch_append)
  then have "insert_batch d t (((b1 @ p # b2) @ [p]) @ b3) L = insert_batch d t ((b1 @ p # b2) @ b3) L"
    by (simp only: insert_batch_append)
  then show ?thesis by simp
qed

lemma insert_batch_distinct:
  "distinct (map fst L) \<Longrightarrow> distinct (map fst (insert_batch d t b L))"
  unfolding insert_batch_def
  by (induction b arbitrary: L) (auto simp: insert_ignore_def)

lemma add_visited_urls_NoFault:
  "add_visited_urls NoFault d t b L = Inr (insert_batch d t b L)"
  by (simp add: add_visited_urls_def insert_transaction_def insert_batch_def)

lemma add_visited_urls_cases:
  "add_visited_urls f d t b L = Inr (if f = NoFault then insert_batch d t b L else L)"
  by (cases f) (simp_all add: add_visited_urls_def insert_transaction_def insert_batch_def)

text \<open>
  Claim C6. Recording a batch is idempotent: once a batch has been recorded, recording
  it again (at any later time, whether or not the store answers) leaves the ledger as it
  is; recording the batch doubled is recording it once; and a pair that occurs a second
  time inside a batch changes nothing. The reason is the conflict-ignoring insert on the
  key \<open>(url, domain)\<close>.
\<close>

theorem add_visited_urls_idempotent:
  assumes "add_visited_urls NoFault d t1 batch L = Inr L1"
  shows "add_visited_urls f d t2 batch L1 = Inr L1
       \<and> add_visited_urls NoFault d t1 (batch @ batch) L = Inr L1
       \<and> add_visited_urls NoFault d t1 (b1 @ p # b2 @ p # b3) L
           = add_visited_urls NoFault d t1 (b1 @ p # b2 @ b3) L"
proof -
  from assms have L1: "L1 = insert_batch d t1 batch L"
    by (simp add: add_visited_urls_NoFault)
  have "add_visited_urls f d t2 batch L1 = Inr L1"
    by (simp add: add_visited_urls_cases L1 insert_batch_twice)
  moreover have "add_visited_urls NoFault d t1 (batch @ batch) L = Inr L1"
    by (simp only: add_visited_urls_NoFault L1 insert_batch_append insert_batch_twice)
  moreover have "add_visited_urls NoFault d t1 (b1 @ p # b2 @ p # b3) L
           = add_visited_urls NoFault d t1 (b1 @ p # b2 @ b3) L"
    by (simp only: add_visited_urls_NoFault insert_batch_duplicate)
  ultimately show ?thesis by blast
qed

text \<open>
  A run of C6: a batch with a repeated pair into the empty ledger, then the same batch
  again two time units later.
\<close>

theorem add_visited_urls_idempotent_witness:
  "add_visited_urls NoFault ''n.example'' 5 [(''/a'', Some True), (''/b'', None), (''/a'', Some True)] []
     = Inr [((''/a'', ''n.example''), (5, Some True)), ((''/b'', ''n.example''), (5, None))]
   \<and> add_visited_urls NoFault ''n.example'' 9 [(''/a'', Some True), (''/b'', None), (''/a'', Some True)]
       [((''/a'', ''n.example''), (5, Some True)), ((''/b'', ''n.example''), (5, None))]
     = Inr [((''/a'', ''n.example''), (5, Some True)), ((''/b'', ''n.example''), (5, None))]"
proof -
  have h: "add_visited_urls NoFault ''n.example'' 5 [(''/a'', Some True), (''/b'', None), (''/a'', Some True)] []
     = Inr [((''/a'', ''n.example''), (5, Some True)), ((''/b'', ''n.example''), (5, None))]"
    by (simp add: add_visited_urls_def insert_transaction_def insert_batch_def insert_ignore_def)
  from add_visited_urls_idempotent [OF h, of NoFault 9] h show ?thesis by simp
qed


lemma crawl_and_flush_fault:
  "crawl_and_flush w f now s L to_visit rs c =
     map_sum id (\<lambda>r. (fst r, fst (snd r), if f = NoFault then snd (snd r) else L))
       (crawl_and_flush w NoFault now s L to_visit rs c)"
  by (simp add: crawl_and_flush_def add_visited_urls_cases split: sum.split prod.split)

lemma scrape_flush_fault:
  "scrape w f now s L =
     map_sum id (\<lambda>r. (fst r, fst (snd r), if f = NoFault then snd (snd r) else L))
       (scrape w NoFault now s L)"
proof (cases "goto w (website_url s)")
  case (Some e)
  then show ?thesis by (simp add: scrape_def)
next
  case None
  show ?thesis
  proof (cases "extract_links w (website_url s)")
    case (Inl e)
    with None show ?thesis by (simp add: scrape_def)
  next
    case (Inr urls)
    show ?thesis
    proof (cases "select_likely_URLS w urls")
      case (Inl e)
      with None Inr show ?thesis by (simp add: scrape_def)
    next
      case lucky: (Inr lucky_urls)
      show ?thesis
      proof (cases "extract_formatted_text w (website_url s)")
        case (Some e)
        with None Inr lucky show ?thesis by (simp add: scrape_def)
      next
        case page_text: None
        obtain rs response where seed: "classify_seed w (website_url s) lucky_urls = (rs, response)"
          by (cases "classify_seed w (website_url s) lucky_urls")
        show ?thesis
        proof (cases "classification_or_None response")
          case (Inl e)
          with None Inr lucky page_text seed show ?thesis by (simp add: scrape_def)
        next
          case c: (Inr c)
          have "scrape w f now s L = crawl_and_flush w f now s L (seed_filter lucky_urls urls) rs c"
            for f
            using None Inr lucky page_text seed c by (simp add: scrape_def)
          then show ?thesis by (simp only: crawl_and_flush_fault [of w f])
        qed
      qed
    qed
  qed
qed

text \<open>
  Claim C10. \<open>add_visited_urls\<close> always returns normally: whatever the store does,
  the answer is a ledger, never an error; an empty batch leaves the ledger alone without
  any store call (also when the store would fail); a failing connection, statement or
  commit leaves the ledger as it was, so the batch is lost; and \<open>scrape\<close> with a failing
  flush ends as it does with a working one, the ledger excepted.
\<close>

theorem add_visited_urls_never_raises:
  "(\<exists>L1. add_visited_urls f d now batch L = Inr L1)
   \<and> add_visited_urls f d now [] L = Inr L
   \<and> add_visited_urls ConnectFails d now batch L = Inr L
   \<and> add_visited_urls ExecuteFails d now batch L = Inr L
   \<and> add_visited_urls CommitFails d now batch L = Inr L
   \<and> scrape w f now s L =
       map_sum id (\<lambda>r. (fst r, fst (snd r), if f = NoFault then snd (snd r) else L))
         (scrape w NoFault now s L)"
  using scrape_flush_fault [of w f now s L]
  by (simp add: add_visited_urls_cases insert_batch_def)

text \<open>
  A run of C10: a batch sent to a store that cannot be reached, and an empty batch.
\<close>

theorem add_visited_urls_never_raises_witness:
  "add_visited_urls ConnectFails ''n.example'' 7 [(''/a'', Some True)] [] = Inr []
   \<and> add_visited_urls CommitFails ''n.example'' 7 [] [] = Inr []"
  using add_visited_urls_never_raises [of ConnectFails "''n.example''" 7 "[(''/a'', Some True)]" "[]"]
        add_visited_urls_never_raises [of CommitFails "''n.example''" 7 "[]" "[]"]
  by simp

section \<open>Properties of the site configuration\<close>

lemma coalesce_provided: "a \<noteq> None \<Longrightarrow> coalesce a b = a"
  by (cases a) (simp_all add: coalesce_def)

lemma coalesce_null: "coalesce None b = b"
  by (simp add: coalesce_def)

text \<open>
  Claim C7. The merge of \<open>add_website\<close>: when a row of the domain exists, the row after
  the call has every provided (non-null) attribute as provided and every attribute that
  was not provided as stored before, and the rows of other domains are the same; when no
  row exists, a row with the attributes as given is inserted.
\<close>

theorem add_website_merge:
  fixes s :: config
  shows "(W (domain s) = Some old \<longrightarrow>
           (\<exists>new. add_website NoFault now s W = Inr (W(domain s \<mapsto> new))
             \<and> (login_url s \<noteq> None \<longrightarrow> row_login_url new = login_url s)
             \<and> (login_url s = None \<longrightarrow> row_login_url new = row_login_url old)
             \<and> (username s \<noteq> None \<longrightarrow> row_username new = username s)
             \<and> (username s = None \<longrightarrow> row_username new = row_username old)
             \<and> (password s \<noteq> None \<longrightarrow> row_password new = password s)
             \<and> (password s = None \<longrightarrow> row_password new = row_password old)
             \<and> (username_selector s \<noteq> None \<longrightarrow> row_username_selector new = username_selector s)
             \<and> (username_selector s = None \<longrightarrow> row_username_selector new = row_username_selector old)
             \<and> (password_selector s \<noteq> None \<longrightarrow> row_password_selector new = password_selector s)
             \<and> (password_selector s = None \<longrightarrow> row_password_selector new = row_password_selector old)
             \<and> (submit_button_selector s \<noteq> None \<longrightarrow>
                   row_submit_button_selector new = submit_button_selector s)
             \<and> (submit_button_selector s = None \<longrightarrow>
                   row_submit_button_selector new = row_submit_button_selector old)))
       \<and> (W (domain s) = None \<longrightarrow>
           add_website NoFault now s W =
             Inr (W(domain s \<mapsto>
               \<lparr>row_login_url = login_url s, row_username = username s,
                row_password = password s, row_username_selector = username_selector s,
                row_password_selector = password_selector s,
                row_submit_button_selector = submit_button_selector s,
                row_last_updated = now\<rparr>)))"
proof (intro conjI impI)
  assume old: "W (domain s) = Some old"
  let ?new = "\<lparr>row_login_url = coalesce (login_url s) (row_login_url old),
      row_username = coalesce (username s) (row_username old),
      row_password = coalesce (password s) (row_password old),
      row_username_selector = coalesce (username_selector s) (row_username_selector old),
      row_password_selector = coalesce (password_selector s) (row_password_selector old),
      row_submit_button_selector =
        coalesce (submit_button_selector s) (row_submit_button_selector old),
      row_last_updated = now\<rparr>"
  have "add_website NoFault now s W = Inr (W(domain s \<mapsto> ?new))"
    by (simp add: add_website_def old)
  then show "\<exists>new. add_website NoFault now s W = Inr (W(domain s \<mapsto> new))
             \<and> (login_url s \<noteq> None \<longrightarrow> row_login_url new = login_url s)
             \<and> (login_url s = None \<longrightarrow> row_login_url new = row_login_url old)
             \<and> (username s \<noteq> None \<longrightarrow> row_username new = username s)
             \<and> (username s = None \<longrightarrow> row_username new = row_username old)
             \<and> (password s \<noteq> None \<longrightarrow> row_password new = password s)
             \<and> (password s = None \<longrightarrow> row_password new = row_password old)
             \<and> (username_selector s \<noteq> None \<longrightarrow> row_username_selector new = username_selector s)
             \<and> (username_selector s = None \<longrightarrow> row_username_selector new = row_username_selector old)
             \<and> (password_selector s \<noteq> None \<longrightarrow> row_password_selector new = password_selector s)
             \<and> (password_selector s = None \<longrightarrow> row_password_selector new = row_password_selector old)
             \<and> (submit_button_selector s \<noteq> None \<longrightarrow>
                   row_submit_button_selector new = submit_button_selector s)
             \<and> (submit_button_selector s = None \<longrightarrow>
                   row_submit_button_selector new = row_submit_button_selector old)"
    by (intro exI [of _ ?new]) (simp add: coalesce_provided coalesce_null)
next
  assume "W (domain s) = None"
  then show "add_website NoFault now s W =
             Inr (W(domain s \<mapsto>
               \<lparr>row_login_url = login_url s, row_username = username s,
                row_password = password s, row_username_selector = username_selector s,
                row_password_selector = password_selector s,
                row_submit_button_selector = submit_button_selector s,
                row_last_updated = now\<rparr>))"
    by (simp add: add_website_def)
qed

text \<open>
  A run of C7: only the username is provided, first over a stored row, then with no
  row stored.
\<close>

theorem add_website_merge_witness:
  "add_website NoFault 9 (sample_config\<lparr>username := Some ''new-user''\<rparr>) [''n.example'' \<mapsto> sample_row]
     = Inr [''n.example'' \<mapsto> sample_row\<lparr>row_username := Some ''new-user'', row_last_updated := 9\<rparr>]
   \<and> add_website NoFault 9 (sample_config\<lparr>username := Some ''new-user''\<rparr>) Map.empty
     = Inr [''n.example'' \<mapsto>
         \<lparr>row_login_url = None, row_username = Some ''new-user'', row_password = None,
          row_username_selector = None, row_password_selector = None,
          row_submit_button_selector = None, row_last_updated = 9\<rparr>]"
proof -
  let ?s = "sample_config\<lparr>username := Some ''new-user''\<rparr>"
  have d: "domain ?s = ''n.example''" by (simp add: sample_config_def)
  have h1: "[''n.example'' \<mapsto> sample_row] (domain ?s) = Some sample_row" by (simp add: d)
  have h2: "Map.empty (domain ?s) = (None :: website_row option)" by simp
  from add_website_merge [of "[''n.example'' \<mapsto> sample_row]" ?s sample_row 9] h1
  obtain new where n: "add_website NoFault 9 ?s [''n.example'' \<mapsto> sample_row]
        = Inr ([''n.example'' \<mapsto> sample_row](domain ?s \<mapsto> new))"
      and u: "row_username new = username ?s"
      and l: "row_login_url new = row_login_url sample_row"
      and p: "row_password new = row_password sample_row"
      and us: "row_username_selector new = row_username_selector sample_row"
      and ps: "row_password_selector new = row_password_selector sample_row"
      and ss: "row_submit_button_selector new = row_submit_button_selector sample_row"
    by (auto simp: sample_config_def)
  have "add_website NoFault 9 ?s [''n.example'' \<mapsto> sample_row]
     = Inr [''n.example'' \<mapsto> sample_row\<lparr>row_username := Some ''new-user'', row_last_updated := 9\<rparr>]"
    by (simp add: add_website_def sample_config_def sample_row_def coalesce_def)
  moreover from add_website_merge [of Map.empty ?s sample_row 9] h2
  have "add_website NoFault 9 ?s Map.empty
     = Inr [''n.example'' \<mapsto>
         \<lparr>row_login_url = None, row_username = Some ''new-user'', row_password = None,
          row_username_selector = None, row_password_selector = None,
          row_submit_button_selector = None, row_last_updated = 9\<rparr>]"
    by (simp add: sample_config_def)
  ultimately show ?thesis by blast
qed

section \<open>Properties of the startup back-fill\<close>

lemma backfill_truthy: "truthy c \<Longrightarrow> backfill c st = c"
  by (simp add: backfill_def)

lemma backfill_changed: "backfill c st \<noteq> c \<Longrightarrow> \<not> truthy c \<and> truthy st \<and> backfill c st = st"
  by (simp add: backfill_def split: if_splits)

text \<open>
  Claim C8. For each of the six attributes (login URL, username, password, the three
  selectors): a value the caller provided is the effective value after the stored row
  was loaded, so a stored value never overwrites it; and an effective value that differs
  from the caller's arises only where the caller left the attribute unset, and is then
  the value of the stored row of the domain. An attribute is provided when it holds a
  non-empty string and unset when it is \<open>None\<close> or blank, as the code's own test reads it.
\<close>

theorem stored_values_fill_only_empty:
  fixes s :: config
  assumes "s' = get_stored_domain_info f W s"
  shows "(truthy (login_url s) \<longrightarrow> login_url s' = login_url s)
       \<and> (truthy (username s) \<longrightarrow> username s' = username s)
       \<and> (truthy (password s) \<longrightarrow> password s' = password s)
       \<and> (truthy (username_selector s) \<longrightarrow> username_selector s' = username_selector s)
       \<and> (truthy (password_selector s) \<longrightarrow> password_selector s' = password_selector s)
       \<and> (truthy (submit_button_selector s) \<longrightarrow> submit_button_selector s' = submit_button_selector s)
       \<and> (login_url s' \<noteq> login_url s \<longrightarrow>
            \<not> truthy (login_url s) \<and> (\<exists>r. W (domain s) = Some r \<and> login_url s' = row_login_url r))
       \<and> (username s' \<noteq> username s \<longrightarrow>
            \<not> truthy (username s) \<and> (\<exists>r. W (domain s) = Some r \<and> username s' = row_username r))
       \<and> (password s' \<noteq> password s \<longrightarrow>
            \<not> truthy (password s) \<and> (\<exists>r. W (domain s) = Some r \<and> password s' = row_password r))
       \<and> (username_selector s' \<noteq> username_selector s \<longrightarrow>
            \<not> truthy (username_selector s)
            \<and> (\<exists>r. W (domain s) = Some r \<and> username_selector s' = row_username_selector r))
       \<and> (password_selector s' \<noteq> password_selector s \<longrightarrow>
            \<not> truthy (password_selector s)
            \<and> (\<exists>r. W (domain s) = Some r \<and> password_selector s' = row_password_selector r))
       \<and> (submit_button_selector s' \<noteq> submit_button_selector s \<longrightarrow>
            \<not> truthy (submit_button_selector s)
            \<and> (\<exists>r. W (domain s) = Some r \<and> submit_button_selector s' = row_submit_button_selector r))"
proof (cases "f = ConnectFails \<or> f = ExecuteFails")
  case True
  with assms show ?thesis by (simp add: get_stored_domain_info_def)
next
  case False
  show ?thesis
  proof (cases "W (domain s)")
    case None
    with False assms show ?thesis by (simp add: get_stored_domain_info_def)
  next
    case (Some r)
    with False assms have e: "s' = update_attributes_from_stored_values r s"
      by (simp add: get_stored_domain_info_def)
    show ?thesis unfolding e using Some
      by (simp add: update_attributes_from_stored_values_def backfill_truthy)
         (metis backfill_changed)
  qed
qed

text \<open>
  A run of C8: the caller provides the username only; the username stays, the password
  comes from the stored row.
\<close>

theorem stored_values_fill_only_empty_witness:
  "truthy (username (sample_config\<lparr>username := Some ''caller''\<rparr>))
   \<and> username (get_stored_domain_info NoFault [''n.example'' \<mapsto> sample_row]
        (sample_config\<lparr>username := Some ''caller''\<rparr>)) = Some ''caller''
   \<and> password (get_stored_domain_info NoFault [''n.example'' \<mapsto> sample_row]
        (sample_config\<lparr>username := Some ''caller''\<rparr>)) = Some ''stored-pass''"
proof -
  let ?s = "sample_config\<lparr>username := Some ''caller''\<rparr>"
  let ?W = "[''n.example'' \<mapsto> sample_row]"
  have t: "truthy (username ?s)" by (simp add: truthy_def)
  have p: "password (get_stored_domain_info NoFault ?W ?s) = Some ''stored-pass''"
    by (simp add: get_stored_domain_info_def update_attributes_from_stored_values_def
        backfill_def truthy_def sample_config_def sample_row_def)
  from stored_values_fill_only_empty [of "get_stored_domain_info NoFault ?W ?s" NoFault ?W ?s] t
  have "username (get_stored_domain_info NoFault ?W ?s) = username ?s" by blast
  with t p show ?thesis by simp
qed

text \<open>
  A blank form field reaches the constructor as the empty string. The test
  \<open>not current_value\<close> takes it for an attribute that is not set, and the stored value
  fills it in.
\<close>

lemma blank_attribute_is_unset:
  "login_url (sample_config\<lparr>login_url := Some ''''\<rparr>) = Some ''''
   \<and> login_url (get_stored_domain_info NoFault [''n.example'' \<mapsto> sample_row]
        (sample_config\<lparr>login_url := Some ''''\<rparr>)) = Some ''https://n.example/login''"
  by (simp add: get_stored_domain_info_def update_attributes_from_stored_values_def
      backfill_def truthy_def sample_config_def sample_row_def)

section \<open>Properties of the login resolution\<close>

lemma initialize_login_more:
  fixes s :: scrapper
  assumes "initialize_login w s = (sa, b)"
  shows "logged_in sa = logged_in s \<and> session_cookies sa = session_cookies s
       \<and> visited_urls sa = visited_urls s"
  using assms
  by (auto simp: initialize_login_def resolve_login_url_def
      split: sum.splits option.splits if_splits prod.splits)

lemma init_attributes_fresh:
  "init_attributes w f_info f_visited W L args = Inr s \<Longrightarrow>
   \<not> logged_in s \<and> session_cookies s = None"
  by (auto simp: init_attributes_def Let_def split: option.splits)

lemma initialize_login_url_raises:
  "\<not> truthy (login_url s) \<Longrightarrow> get_login_url w = Inl e \<Longrightarrow> initialize_login w s = (s, False)"
  by (simp add: initialize_login_def resolve_login_url_def)

lemma initialize_login_url_missing:
  "\<not> truthy (login_url s) \<Longrightarrow> get_login_url w = Inr None \<Longrightarrow>
   initialize_login w s = (s\<lparr>login_url := None\<rparr>, False)"
  by (simp add: initialize_login_def resolve_login_url_def)

lemma resolve_login_url_resolved:
  assumes "truthy (login_url s) \<and> login_url s = Some url \<and> sb = s
         \<or> \<not> truthy (login_url s) \<and> get_login_url w = Inr (Some url)
             \<and> sb = s\<lparr>login_url := Some url\<rparr>"
  shows "resolve_login_url w s = Inr sb \<and> login_url sb = Some url
       \<and> username_selector sb = username_selector s
       \<and> password_selector sb = password_selector s
       \<and> submit_button_selector sb = submit_button_selector s"
  using assms by (auto simp: resolve_login_url_def)

lemma initialize_login_selectors_fail:
  assumes "resolve_login_url w s = Inr sb" and "login_url sb = Some url"
      and "\<not> (truthy (username_selector sb) \<and> truthy (password_selector sb)
               \<and> truthy (submit_button_selector sb))"
      and "get_login_selectors w url = Inl e
         \<or> get_login_selectors w url = Inr (u, p, b) \<and> \<not> (truthy u \<and> truthy p \<and> truthy b)"
  shows "initialize_login w s = (sb, False)"
  using assms by (auto simp: initialize_login_def)

lemma initialize_login_selectors_ok:
  assumes "resolve_login_url w s = Inr sb" and "login_url sb = Some url"
      and "truthy (username_selector sb) \<and> truthy (password_selector sb)
             \<and> truthy (submit_button_selector sb) \<and> sc = sb
         \<or> \<not> (truthy (username_selector sb) \<and> truthy (password_selector sb)
                 \<and> truthy (submit_button_selector sb))
             \<and> get_login_selectors w url = Inr (u, p, b) \<and> truthy u \<and> truthy p \<and> truthy b
             \<and> sc = sb\<lparr>username_selector := u, password_selector := p,
                        submit_button_selector := b\<rparr>"
  shows "initialize_login w s = (sc, True) \<and> login_url sc = Some url"
  using assms by (auto simp: initialize_login_def)

text \<open>
  Claim C9. With credentials present and the site opened: when login resolution
  succeeds, the form is submitted and the browser holds no cookie afterwards, the
  constructor ends with the exception of \<open>_verify_session\<close> (no anonymous fallback); when
  login resolution fails, the constructor returns an object that is not logged in and
  holds no cookies. Login resolution fails when no login URL is given and its detection
  raises or answers \<open>None\<close>, and when, with the login URL given or detected, a selector is
  missing and the detection of the selectors raises or answers an empty selector. It
  succeeds when the login URL is given or detected and the three selectors are given or
  all detected.
\<close>

theorem login_without_cookies_is_fatal:
  assumes "init_attributes w f_info f_visited W L args = Inr s"
      and "can_authenticate s"
      and "goto w (website_url s) = None"
  shows "(initialize_login w s = (sa, True) \<and> submit_login_form w (login_url sa) = None
            \<and> context_cookies w = [] \<longrightarrow>
          init w f_info f_visited W L args
            = Inl (Exception ''No session cookies found after login''))
       \<and> (initialize_login w s = (sa, False) \<longrightarrow>
          init w f_info f_visited W L args = Inr sa \<and> \<not> logged_in sa
            \<and> session_cookies sa = None)
       \<and> (\<not> truthy (login_url s) \<and> get_login_url w = Inl e \<longrightarrow>
          init w f_info f_visited W L args = Inr s \<and> \<not> logged_in s \<and> session_cookies s = None)
       \<and> (\<not> truthy (login_url s) \<and> get_login_url w = Inr None \<longrightarrow>
          init w f_info f_visited W L args = Inr (s\<lparr>login_url := None\<rparr>)
            \<and> \<not> logged_in s \<and> session_cookies s = None)
       \<and> ((truthy (login_url s) \<and> login_url s = Some url \<and> sb = s
             \<or> \<not> truthy (login_url s) \<and> get_login_url w = Inr (Some url)
                 \<and> sb = s\<lparr>login_url := Some url\<rparr>)
           \<and> \<not> (truthy (username_selector s) \<and> truthy (password_selector s)
                   \<and> truthy (submit_button_selector s))
           \<and> (get_login_selectors w url = Inl ea
               \<or> get_login_selectors w url = Inr (u, p, b)
                   \<and> \<not> (truthy u \<and> truthy p \<and> truthy b)) \<longrightarrow>
          init w f_info f_visited W L args = Inr sb \<and> \<not> logged_in sb
            \<and> session_cookies sb = None)
       \<and> ((truthy (login_url s) \<and> login_url s = Some url \<and> sb = s
             \<or> \<not> truthy (login_url s) \<and> get_login_url w = Inr (Some url)
                 \<and> sb = s\<lparr>login_url := Some url\<rparr>)
           \<and> (truthy (username_selector s) \<and> truthy (password_selector s)
                 \<and> truthy (submit_button_selector s) \<and> sc = sb
               \<or> \<not> (truthy (username_selector s) \<and> truthy (password_selector s)
                       \<and> truthy (submit_button_selector s))
                   \<and> get_login_selectors w url = Inr (u, p, b)
                   \<and> truthy u \<and> truthy p \<and> truthy b
                   \<and> sc = sb\<lparr>username_selector := u, password_selector := p,
                              submit_button_selector := b\<rparr>)
           \<and> submit_login_form w (Some url) = None \<and> context_cookies w = [] \<longrightarrow>
          init w f_info f_visited W L args
            = Inl (Exception ''No session cookies found after login''))"
proof -
  note fresh = init_attributes_fresh [OF assms(1)]
  have fatal: "init w f_info f_visited W L args
            = Inl (Exception ''No session cookies found after login'')"
    if "initialize_login w s = (t, True)" "submit_login_form w (login_url t) = None"
       "context_cookies w = []" for t
    using that assms by (simp add: init_def authenticate_def login_def verify_session_def)
  have fallback: "init w f_info f_visited W L args = Inr t \<and> \<not> logged_in t
            \<and> session_cookies t = None"
    if h: "initialize_login w s = (t, False)" for t
    using initialize_login_more [OF h] fresh assms h by (simp add: init_def authenticate_def)
  have A: "initialize_login w s = (sa, True) \<and> submit_login_form w (login_url sa) = None
            \<and> context_cookies w = [] \<longrightarrow>
          init w f_info f_visited W L args
            = Inl (Exception ''No session cookies found after login'')"
    using fatal by blast
  have B: "initialize_login w s = (sa, False) \<longrightarrow>
          init w f_info f_visited W L args = Inr sa \<and> \<not> logged_in sa
            \<and> session_cookies sa = None"
    using fallback by blast
  have C: "\<not> truthy (login_url s) \<and> get_login_url w = Inl e \<longrightarrow>
          init w f_info f_visited W L args = Inr s \<and> \<not> logged_in s \<and> session_cookies s = None"
    using fallback [of s] initialize_login_url_raises [of s w e] by blast
  have D: "\<not> truthy (login_url s) \<and> get_login_url w = Inr None \<longrightarrow>
          init w f_info f_visited W L args = Inr (s\<lparr>login_url := None\<rparr>)
            \<and> \<not> logged_in s \<and> session_cookies s = None"
    using fallback [of "s\<lparr>login_url := None\<rparr>"] initialize_login_url_missing [of s w] fresh
    by blast
  have E: "(truthy (login_url s) \<and> login_url s = Some url \<and> sb = s
             \<or> \<not> truthy (login_url s) \<and> get_login_url w = Inr (Some url)
                 \<and> sb = s\<lparr>login_url := Some url\<rparr>)
           \<and> \<not> (truthy (username_selector s) \<and> truthy (password_selector s)
                   \<and> truthy (submit_button_selector s))
           \<and> (get_login_selectors w url = Inl ea
               \<or> get_login_selectors w url = Inr (u, p, b)
                   \<and> \<not> (truthy u \<and> truthy p \<and> truthy b)) \<longrightarrow>
          init w f_info f_visited W L args = Inr sb \<and> \<not> logged_in sb
            \<and> session_cookies sb = None"
  proof
    assume h: "(truthy (login_url s) \<and> login_url s = Some url \<and> sb = s
             \<or> \<not> truthy (login_url s) \<and> get_login_url w = Inr (Some url)
                 \<and> sb = s\<lparr>login_url := Some url\<rparr>)
           \<and> \<not> (truthy (username_selector s) \<and> truthy (password_selector s)
                   \<and> truthy (submit_button_selector s))
           \<and> (get_login_selectors w url = Inl ea
               \<or> get_login_selectors w url = Inr (u, p, b)
                   \<and> \<not> (truthy u \<and> truthy p \<and> truthy b))"
    from h resolve_login_url_resolved [of s url sb w]
    have r: "resolve_login_url w s = Inr sb" "login_url sb = Some url"
        "username_selector sb = username_selector s"
        "password_selector sb = password_selector s"
        "submit_button_selector sb = submit_button_selector s"
      by blast+
    from h r have "initialize_login w s = (sb, False)"
      by (intro initialize_login_selectors_fail [of w s sb url ea u p b]) simp_all
    then show "init w f_info f_visited W L args = Inr sb \<and> \<not> logged_in sb
            \<and> session_cookies sb = None"
      by (rule fallback)
  qed
  have F: "(truthy (login_url s) \<and> login_url s = Some url \<and> sb = s
             \<or> \<not> truthy (login_url s) \<and> get_login_url w = Inr (Some url)
                 \<and> sb = s\<lparr>login_url := Some url\<rparr>)
           \<and> (truthy (username_selector s) \<and> truthy (password_selector s)
                 \<and> truthy (submit_button_selector s) \<and> sc = sb
               \<or> \<not> (truthy (username_selector s) \<and> truthy (password_selector s)
                       \<and> truthy (submit_button_selector s))
                   \<and> get_login_selectors w url = Inr (u, p, b)
                   \<and> truthy u \<and> truthy p \<and> truthy b
                   \<and> sc = sb\<lparr>username_selector := u, password_selector := p,
                              submit_button_selector := b\<rparr>)
           \<and> submit_login_form w (Some url) = None \<and> context_cookies w = [] \<longrightarrow>
          init w f_info f_visited W L args
            = Inl (Exception ''No session cookies found after login'')"
  proof
    assume h: "(truthy (login_url s) \<and> login_url s = Some url \<and> sb = s
             \<or> \<not> truthy (login_url s) \<and> get_login_url w = Inr (Some url)
                 \<and> sb = s\<lparr>login_url := Some url\<rparr>)
           \<and> (truthy (username_selector s) \<and> truthy (password_selector s)
                 \<and> truthy (submit_button_selector s) \<and> sc = sb
               \<or> \<not> (truthy (username_selector s) \<and> truthy (password_selector s)
                       \<and> truthy (submit_button_selector s))
                   \<and> get_login_selectors w url = Inr (u, p, b)
                   \<and> truthy u \<and> truthy p \<and> truthy b
                   \<and> sc = sb\<lparr>username_selector := u, password_selector := p,
                              submit_button_selector := b\<rparr>)
           \<and> submit_login_form w (Some url) = None \<and> context_cookies w = []"
    from h resolve_login_url_resolved [of s url sb w]
    have r: "resolve_login_url w s = Inr sb" "login_url sb = Some url"
        "username_selector sb = username_selector s"
        "password_selector sb = password_selector s"
        "submit_button_selector sb = submit_button_selector s"
      by blast+
    from h r have "initialize_login w s = (sc, True) \<and> login_url sc = Some url"
      by (intro initialize_login_selectors_ok [of w s sb url sc u p b]) simp_all
    with h show "init w f_info f_visited W L args
            = Inl (Exception ''No session cookies found after login'')"
      by (intro fatal [of sc]) simp_all
  qed
  from A B C D E F show ?thesis by blast
qed

text \<open>
  Runs of C9 on the sample site with credentials, whose login sets no cookie: with every
  detection answering, the constructor ends with the exception; with a login-URL
  detection that raises or answers \<open>None\<close>, and with a selector detection that leaves the
  password selector out, it returns an object that is not logged in.
\<close>

theorem login_without_cookies_is_fatal_witness:
  "init sample_world NoFault NoFault Map.empty []
     (sample_config\<lparr>username := Some ''u'', password := Some ''p''\<rparr>)
     = Inl (Exception ''No session cookies found after login'')
   \<and> map_sum id logged_in
       (init (sample_world\<lparr>detect_login_url := Inl CollaboratorError\<rparr>) NoFault NoFault Map.empty []
         (sample_config\<lparr>username := Some ''u'', password := Some ''p''\<rparr>))
     = Inr False
   \<and> map_sum id logged_in
       (init (sample_world\<lparr>detect_login_url := Inr None\<rparr>) NoFault NoFault Map.empty []
         (sample_config\<lparr>username := Some ''u'', password := Some ''p''\<rparr>))
     = Inr False
   \<and> map_sum id logged_in
       (init (sample_world\<lparr>detect_selectors := (\<lambda>u. Inr (Some ''#user'', None, Some ''#go''))\<rparr>)
         NoFault NoFault Map.empty []
         (sample_config\<lparr>username := Some ''u'', password := Some ''p''\<rparr>))
     = Inr False"
proof -
  let ?args = "sample_config\<lparr>username := Some ''u'', password := Some ''p''\<rparr>"
  let ?w2 = "sample_world\<lparr>detect_login_url := Inl CollaboratorError\<rparr>"
  let ?w3 = "sample_world\<lparr>detect_login_url := Inr None\<rparr>"
  let ?w4 = "sample_world\<lparr>detect_selectors := (\<lambda>u. Inr (Some ''#user'', None, Some ''#go''))\<rparr>"
  let ?s = "sample_scrapper\<lparr>username := Some ''u'', password := Some ''p''\<rparr>"
  let ?url = "''https://n.example/login''"
  let ?sb = "?s\<lparr>login_url := Some ?url\<rparr>"
  let ?sc = "?sb\<lparr>username_selector := Some ''#user'', password_selector := Some ''#pass'',
                submit_button_selector := Some ''#go''\<rparr>"
  have a: "init_attributes w NoFault NoFault Map.empty [] ?args = Inr ?s"
    if "hash_positions w = hash_positions sample_world" for w
    using that
    by (simp add: init_attributes_def get_stored_domain_info_def get_visited_urls_def
        populate_def sample_config_def sample_scrapper_def empty_filter_def)
  have c: "can_authenticate ?s"
    by (simp add: can_authenticate_def)
  have g: "goto w (website_url ?s) = None" if "goto w = goto sample_world" for w
    using that by (simp add: sample_world_def sample_scrapper_def)
  have n: "\<not> truthy (login_url ?s)"
    and m: "\<not> (truthy (username_selector ?s) \<and> truthy (password_selector ?s)
               \<and> truthy (submit_button_selector ?s))"
    by (simp_all add: truthy_def sample_scrapper_def)
  have d1: "get_login_url sample_world = Inr (Some ?url)"
    and d2: "get_login_selectors sample_world ?url = Inr (Some ''#user'', Some ''#pass'', Some ''#go'')"
    and d3: "submit_login_form sample_world (Some ?url) = None \<and> context_cookies sample_world = []"
    and t1: "truthy (Some ''#user'') \<and> truthy (Some ''#pass'') \<and> truthy (Some ''#go'')"
    by (simp_all add: get_login_url_def get_login_selectors_def sample_world_def truthy_def)
  from login_without_cookies_is_fatal [OF a c g,
      where w = sample_world and url = ?url and sb = ?sb and sc = ?sc
        and u = "Some ''#user''" and p = "Some ''#pass''" and b = "Some ''#go''"]
    n m d1 d2 d3 t1
  have r1: "init sample_world NoFault NoFault Map.empty [] ?args
     = Inl (Exception ''No session cookies found after login'')"
    by simp
  have "get_login_url ?w2 = Inl CollaboratorError"
    by (simp add: get_login_url_def)
  with login_without_cookies_is_fatal [OF a c g, where w = ?w2 and e = CollaboratorError] n
  have r2: "init ?w2 NoFault NoFault Map.empty [] ?args = Inr ?s \<and> \<not> logged_in ?s"
    by simp
  have "get_login_url ?w3 = Inr None"
    by (simp add: get_login_url_def)
  with login_without_cookies_is_fatal [OF a c g, where w = ?w3] n
  have r3: "init ?w3 NoFault NoFault Map.empty [] ?args = Inr (?s\<lparr>login_url := None\<rparr>)
              \<and> \<not> logged_in ?s"
    by simp
  have "get_login_url ?w4 = Inr (Some ?url)"
    and "get_login_selectors ?w4 ?url = Inr (Some ''#user'', None, Some ''#go'')"
    and "\<not> (truthy (Some ''#user'') \<and> truthy None \<and> truthy (Some ''#go''))"
    by (simp_all add: get_login_url_def get_login_selectors_def sample_world_def truthy_def)
  with login_without_cookies_is_fatal [OF a c g,
      where w = ?w4 and url = ?url and sb = ?sb
        and u = "Some ''#user''" and p = None and b = "Some ''#go''"] n m
  have r4: "init ?w4 NoFault NoFault Map.empty [] ?args = Inr ?sb \<and> \<not> logged_in ?sb"
    by simp
  from r1 r2 r3 r4 show ?thesis by simp
qed

section \<open>Properties of the membership cache\<close>

lemma sbf_contains_iff:
  "sbf_contains F key \<longleftrightarrow> (\<exists>b \<in> set (filters F). bloom_contains (make_hashes F) b key)"
  by (simp add: sbf_contains_def list_ex_iff)

lemma bloom_add_contains: "bloom_contains h (bloom_add h b key) key"
  by (simp add: bloom_contains_def bloom_add_def list_all_iff)

lemma bloom_add_mono: "bloom_contains h b k \<Longrightarrow> bloom_contains h (bloom_add h b key) k"
  by (simp add: bloom_contains_def bloom_add_def list_all_iff)

lemma sbf_add_hashes: "make_hashes (sbf_add F key) = make_hashes F"
  by (simp add: sbf_add_def Let_def)

lemma sbf_add_contains: "sbf_contains (sbf_add F key) key"
proof (cases "sbf_contains F key")
  case True
  then show ?thesis by (simp add: sbf_add_def)
next
  case False
  then show ?thesis
    by (simp add: sbf_add_def Let_def sbf_contains_iff bloom_add_contains)
qed

lemma sbf_add_mono:
  assumes "sbf_contains F k"
  shows "sbf_contains (sbf_add F key) k"
proof (cases "sbf_contains F key")
  case True
  with assms show ?thesis by (simp add: sbf_add_def)
next
  case False
  from assms obtain b where b: "b \<in> set (filters F)" "bloom_contains (make_hashes F) b k"
    by (auto simp: sbf_contains_iff)
  define fs where "fs = (if filters F = [] then [new_bloom (initial_capacity F)]
                  else if capacity (last (filters F)) \<le> count (last (filters F))
                       then filters F @ [new_bloom (capacity (last (filters F)) * scale F)]
                       else filters F)"
  from b(1) have ne: "fs \<noteq> []" and bin: "b \<in> set fs"
    by (auto simp: fs_def)
  from ne have split: "fs = butlast fs @ [last fs]" by simp
  have new: "filters (sbf_add F key) = butlast fs @ [bloom_add (make_hashes F) (last fs) key]"
    using False by (simp add: sbf_add_def Let_def fs_def)
  from bin split have "b \<in> set (butlast fs) \<or> b = last fs"
    by (metis Un_iff insert_iff list.set(2) set_append empty_iff list.set(1))
  then have "\<exists>c \<in> set (filters (sbf_add F key)). bloom_contains (make_hashes F) c k"
  proof
    assume "b \<in> set (butlast fs)"
    with b(2) show ?thesis unfolding new by auto
  next
    assume "b = last fs"
    with b(2) have "bloom_contains (make_hashes F) (bloom_add (make_hashes F) (last fs) key) k"
      by (simp add: bloom_add_mono)
    then show ?thesis unfolding new by auto
  qed
  then show ?thesis by (simp add: sbf_contains_iff sbf_add_hashes)
qed

lemma populate_mono: "sbf_contains F k \<Longrightarrow> sbf_contains (populate F rows) k"
  unfolding populate_def
  by (induction rows arbitrary: F) (simp_all add: sbf_add_mono)

text \<open>
  \<open>get_visited_urls\<close> answers a Python set, which the constructor iterates in an order of
  its own. The next lemma is about any list of rows, so it covers every such order.
\<close>

lemma populate_contains: "row \<in> set rows \<Longrightarrow> sbf_contains (populate F rows) (fst row)"
  unfolding populate_def
proof (induction rows arbitrary: F)
  case Nil
  then show ?case by simp
next
  case (Cons r rows)
  show ?case
  proof (cases "row = r")
    case True
    have "sbf_contains (populate (sbf_add F (fst r)) rows) (fst r)"
      by (rule populate_mono) (rule sbf_add_contains)
    with True show ?thesis by (simp add: populate_def)
  next
    case False
    with Cons.prems have "row \<in> set rows" by simp
    from Cons.IH [OF this] show ?thesis by simp
  qed
qed

lemma authenticate_visited_urls:
  "authenticate w s = Inr s' \<Longrightarrow> visited_urls s' = visited_urls s"
  by (auto simp: authenticate_def login_def verify_session_def Let_def
      split: if_splits prod.splits bool.splits option.splits dest: initialize_login_more)

lemma get_stored_domain_info_domain: "domain (get_stored_domain_info f W c) = domain c"
  by (simp add: get_stored_domain_info_def update_attributes_from_stored_values_def
      split: option.split)

text \<open>
  Claim C5. Membership soundness: for the object the constructor returns, a URL that
  \<open>is_url_visited\<close> does not report has no row under the domain in the ledger the cache
  was built from.
\<close>

theorem membership_no_false_negatives:
  assumes "init w f_info f_visited W L args = Inr s"
      and "\<not> is_url_visited s url"
  shows "(url, domain args) \<notin> set (map fst L)"
proof
  assume inL: "(url, domain args) \<in> set (map fst L)"
  from assms(1) obtain s0 where s0: "init_attributes w f_info f_visited W L args = Inr s0"
      and au: "authenticate w s0 = Inr s"
    by (auto simp: init_def split: sum.splits option.splits)
  from s0 obtain rows where rows: "get_visited_urls f_visited (domain args) L = Some rows"
      and v: "visited_urls s0 = populate (empty_filter w) rows"
    by (auto simp: init_attributes_def Let_def get_stored_domain_info_domain split: option.splits)
  from inL obtain r where r: "r \<in> set L" "fst r = (url, domain args)" by auto
  from rows have rw: "rows = map (\<lambda>r. (fst (fst r), snd (snd r)))
                             (filter (\<lambda>r. snd (fst r) = domain args) L)"
    by (simp add: get_visited_urls_def split: if_splits)
  from r have "r \<in> set (filter (\<lambda>r. snd (fst r) = domain args) L)" by simp
  then have "(\<lambda>r. (fst (fst r), snd (snd r))) r
               \<in> (\<lambda>r. (fst (fst r), snd (snd r))) ` set (filter (\<lambda>r. snd (fst r) = domain args) L)"
    by (rule imageI)
  then have "(url, snd (snd r)) \<in> set rows"
    by (simp add: rw r(2))
  from populate_contains [OF this] have "sbf_contains (visited_urls s0) url"
    by (simp add: v)
  with authenticate_visited_urls [OF au] have "is_url_visited s url"
    by (simp add: is_url_visited_def)
  with assms(2) show False by simp
qed

text \<open>
  A run of C5: the ledger holds \<open>/a\<close>; the cache reports \<open>/a\<close> and does not report
  \<open>/abc\<close>, which is not in the ledger.
\<close>

theorem membership_no_false_negatives_witness:
  "init sample_world NoFault NoFault Map.empty [((''/a'', ''n.example''), (5, Some True))] sample_config
     = Inr (sample_scrapper\<lparr>visited_urls := sbf_add (empty_filter sample_world) ''/a''\<rparr>)
   \<and> \<not> is_url_visited (sample_scrapper\<lparr>visited_urls := sbf_add (empty_filter sample_world) ''/a''\<rparr>) ''/abc''
   \<and> is_url_visited (sample_scrapper\<lparr>visited_urls := sbf_add (empty_filter sample_world) ''/a''\<rparr>) ''/a''
   \<and> (''/abc'', ''n.example'') \<notin> set (map fst [((''/a'', ''n.example''), (5::nat, Some True))])"
proof -
  let ?L = "[((''/a'', ''n.example''), (5::nat, Some True))]"
  let ?s = "sample_scrapper\<lparr>visited_urls := sbf_add (empty_filter sample_world) ''/a''\<rparr>"
  have a: "init sample_world NoFault NoFault Map.empty ?L sample_config = Inr ?s"
    by (simp add: init_def init_attributes_def get_stored_domain_info_def get_visited_urls_def
        populate_def authenticate_def can_authenticate_def sample_config_def sample_scrapper_def
        sample_world_def empty_filter_def)
  have n: "\<not> is_url_visited ?s ''/abc''"
    by (simp add: is_url_visited_def sbf_contains_def sbf_add_def empty_filter_def
        bloom_contains_def bloom_add_def new_bloom_def sample_world_def Let_def)
  have y: "is_url_visited ?s ''/a''"
    by (simp add: is_url_visited_def sbf_add_contains)
  from membership_no_false_negatives [OF a n] a n y show ?thesis
    by (simp add: sample_config_def)
qed

section \<open>Properties of the crawl\<close>

text \<open>
  For the seed page the enqueued URLs are the suggested URLs that are observed on the
  page; for a dequeued page the filter keeps nothing (\<open>loop_filter_Nil\<close>), which is also
  why the loop ends: the frontier never grows after the seed.
\<close>

lemma seed_filter_intersection:
  "set (seed_filter (UrlList us) urls) = set us \<inter> href ` set urls"
  "set (seed_filter (OneUrl u) urls) = {u} \<inter> href ` set urls"
  by (auto simp: seed_filter_def)

lemma crawl_loop_Cons:
  "crawl_loop w s (current_url # to_visit) rs nv =
     (if \<not> int (length rs) < max_pages s then Inr (rs, nv, s)
      else if is_url_visited s current_url then crawl_loop w s to_visit rs nv
      else case goto w current_url of
             Some e \<Rightarrow> Inl e
           | None \<Rightarrow>
               (case extract_links w current_url of
                  Inl e \<Rightarrow> Inl e
                | Inr new_links \<Rightarrow>
                    crawl_loop w s to_visit (fst (classify_current w current_url rs nv))
                      (snd (classify_current w current_url rs nv))))"
  by (simp add: enqueue_links_same split: prod.split option.split sum.split)

lemma classify_current_raises:
  "classify_and_extract_news_article w u = Inl e \<Longrightarrow> classify_current w u rs nv = (rs, nv)"
  by (simp add: classify_current_def split: option.split)

lemma classify_current_results:
  "\<not> is_url_visited s u \<Longrightarrow> fst (classify_current w u rs nv) = rs @ frontier_results w s [u]"
  by (simp add: classify_current_def frontier_results_def yields_result_def response_of_def
      split: option.split sum.split)

lemma frontier_results_Cons:
  "frontier_results w s (u # q) = frontier_results w s [u] @ frontier_results w s q"
  by (simp add: frontier_results_def)

lemma frontier_results_visited: "is_url_visited s u \<Longrightarrow> frontier_results w s [u] = []"
  by (simp add: frontier_results_def yields_result_def)

lemma frontier_results_single: "length (frontier_results w s [u]) \<le> 1"
  by (simp add: frontier_results_def)

lemma length_frontier_results: "length (frontier_results w s q) = achievable w s q"
  by (simp add: frontier_results_def achievable_def)

lemma map_fst_frontier_results:
  "map fst (frontier_results w s q) = filter (yields_result w s) q"
  by (simp add: frontier_results_def comp_def)

lemma take_quota:
  assumes "int (length rs) < Q" and "length xs \<le> 1"
  shows "take (nat (Q - int (length rs))) (xs @ ys)
           = xs @ take (nat (Q - int (length (rs @ xs)))) ys"
proof (cases xs)
  case Nil
  then show ?thesis by simp
next
  case (Cons x xs')
  with assms(2) have xs: "xs = [x]" by simp
  from assms(1) have "nat (Q - int (length rs)) = Suc (nat (Q - int (length (rs @ [x]))))"
    by simp
  then show ?thesis by (simp add: xs)
qed

lemma quota_length:
  "1 + int (min (nat (Q - 1)) n) = max 1 (min (1 + int n) Q)"
  by (cases "1 \<le> Q") (auto simp: min_def max_def)

text \<open>
  What the loop returns, when it returns: the results so far followed by the results of
  the frontier up to the quota, and the object it was given.
\<close>

lemma crawl_loop_Inr:
  "crawl_loop w s q rs nv = Inr (rs1, nv1, s1) \<Longrightarrow>
   rs1 = rs @ take (nat (max_pages s - int (length rs))) (frontier_results w s q) \<and> s1 = s"
proof (induction q arbitrary: rs nv)
  case Nil
  then show ?case by (simp add: frontier_results_def)
next
  case (Cons u q)
  show ?case
  proof (cases "int (length rs) < max_pages s")
    case False
    with Cons.prems show ?thesis
      by (simp add: crawl_loop_Cons del: crawl_loop.simps)
  next
    case quota: True
    show ?thesis
    proof (cases "is_url_visited s u")
      case True
      with quota Cons.prems have "crawl_loop w s q rs nv = Inr (rs1, nv1, s1)"
        by (simp add: crawl_loop_Cons del: crawl_loop.simps)
      from Cons.IH [OF this] True show ?thesis
        by (simp add: frontier_results_Cons [of w s u q] frontier_results_visited)
    next
      case False
      let ?rs = "fst (classify_current w u rs nv)"
      let ?nv = "snd (classify_current w u rs nv)"
      from quota False Cons.prems have "crawl_loop w s q ?rs ?nv = Inr (rs1, nv1, s1)"
        by (simp add: crawl_loop_Cons del: crawl_loop.simps split: option.splits sum.splits)
      from Cons.IH [OF this]
      have "rs1 = ?rs @ take (nat (max_pages s - int (length ?rs))) (frontier_results w s q)"
        and s1: "s1 = s"
        by simp_all
      then have "rs1 = rs @ frontier_results w s [u]
                   @ take (nat (max_pages s - int (length (rs @ frontier_results w s [u]))))
                       (frontier_results w s q)"
        by (simp add: classify_current_results [OF False])
      also have "\<dots> = rs @ take (nat (max_pages s - int (length rs)))
                            (frontier_results w s [u] @ frontier_results w s q)"
        by (simp only: take_quota [OF quota frontier_results_single])
      finally show ?thesis
        using s1 by (simp only: frontier_results_Cons [of w s u q] simp_thms)
    qed
  qed
qed

lemma crawl_loop_returns:
  "\<forall>u \<in> set q. navigable w s u \<Longrightarrow> \<exists>r. crawl_loop w s q rs nv = Inr r"
proof (induction q arbitrary: rs nv)
  case Nil
  show ?case by simp
next
  case (Cons u q)
  from Cons.prems have nav: "navigable w s u" and rest: "\<forall>u \<in> set q. navigable w s u"
    by simp_all
  from Cons.IH [OF rest] nav show ?case
    by (auto simp: crawl_loop_Cons navigable_def simp del: crawl_loop.simps
        split: option.splits sum.splits)
qed

text \<open>What \<open>scrape\<close> returns, when it returns, and when it does.\<close>

lemma scrape_Inr:
  assumes "scrape w f now s L = Inr (rs, s1, L1)"
  shows "\<exists>urls lucky_urls r.
           goto w (website_url s) = None
         \<and> extract_links w (website_url s) = Inr urls
         \<and> select_likely_URLS w urls = Inr lucky_urls
         \<and> extract_formatted_text w (website_url s) = None
         \<and> classify_and_extract_news_article w (website_url s) = Inr r
         \<and> s1 = s
         \<and> rs = (website_url s, r) #
                (if crawl s
                 then take (nat (max_pages s - 1))
                        (frontier_results w s (seed_filter lucky_urls urls))
                 else [])"
  using assms
  by (auto simp: scrape_def crawl_and_flush_def classify_seed_def add_visited_urls_cases
      split: option.splits sum.splits prod.splits if_splits dest!: crawl_loop_Inr)

lemma scrape_returns:
  assumes "goto w (website_url s) = None"
      and "extract_links w (website_url s) = Inr urls"
      and "select_likely_URLS w urls = Inr lucky_urls"
      and "extract_formatted_text w (website_url s) = None"
      and "classify_and_extract_news_article w (website_url s) = Inr r"
      and "\<not> crawl s \<or> (\<forall>u \<in> set (seed_filter lucky_urls urls). navigable w s u)"
  shows "\<exists>rs s1 L1. scrape w f now s L = Inr (rs, s1, L1)"
proof (cases "crawl s")
  case False
  with assms show ?thesis
    by (cases r)
       (simp_all add: scrape_def crawl_and_flush_def classify_seed_def add_visited_urls_cases)
next
  case True
  with assms(6) have "\<forall>u \<in> set (seed_filter lucky_urls urls). navigable w s u" by simp
  from crawl_loop_returns [OF this]
  obtain x where "crawl_loop w s (seed_filter lucky_urls urls) [(website_url s, r)]
      [(website_url s, case r of None \<Rightarrow> None | Some a \<Rightarrow> classification a)] = Inr x"
    by blast
  with True assms show ?thesis
    by (cases r; cases x)
       (auto simp: scrape_def crawl_and_flush_def classify_seed_def add_visited_urls_cases)
qed

text \<open>
  Claim C2, amended. When the seed page opens and the extraction of its links, its
  triage, the extraction of its text and its classification return, then \<open>scrape\<close>
  returns, provided it does not crawl or every frontier URL is navigable. Whenever it
  returns, its result list is the seed's entry, which is appended before the quota is
  consulted, followed with crawling by the first \<open>max_pages - 1\<close> results of the frontier.
  So with crawling its length is the larger of 1 and \<open>min (1 + achievable) max_pages\<close>,
  where \<open>achievable\<close> counts the frontier URLs that the cache does not report and whose
  classification returns a response: a URL that is skipped or whose classification fails
  does not count against the quota. Without crawling the length is 1. The length is the
  minimum of the achievable results and the quota whenever the quota is at least 1.
\<close>

theorem scrape_result_length:
  assumes "goto w (website_url s) = None"
      and "extract_links w (website_url s) = Inr urls"
      and "select_likely_URLS w urls = Inr lucky_urls"
      and "extract_formatted_text w (website_url s) = None"
      and "classify_and_extract_news_article w (website_url s) = Inr r"
  shows "((\<not> crawl s \<or> (\<forall>u \<in> set (seed_filter lucky_urls urls). navigable w s u)) \<longrightarrow>
           (\<exists>rs s1 L1. scrape w f now s L = Inr (rs, s1, L1)))
       \<and> (scrape w f now s L = Inr (rs, s1, L1) \<longrightarrow>
           rs = (website_url s, r) #
                  (if crawl s
                   then take (nat (max_pages s - 1))
                          (frontier_results w s (seed_filter lucky_urls urls))
                   else [])
           \<and> int (length rs) =
               (if crawl s
                then max 1 (min (1 + int (achievable w s (seed_filter lucky_urls urls)))
                              (max_pages s))
                else 1))"
proof (rule conjI; rule impI)
  assume "\<not> crawl s \<or> (\<forall>u \<in> set (seed_filter lucky_urls urls). navigable w s u)"
  with assms show "\<exists>rs s1 L1. scrape w f now s L = Inr (rs, s1, L1)"
    by (rule scrape_returns)
next
  assume "scrape w f now s L = Inr (rs, s1, L1)"
  from scrape_Inr [OF this] assms
  have rs: "rs = (website_url s, r) #
                  (if crawl s
                   then take (nat (max_pages s - 1))
                          (frontier_results w s (seed_filter lucky_urls urls))
                   else [])"
    by auto
  have "int (length rs) =
               (if crawl s
                then max 1 (min (1 + int (achievable w s (seed_filter lucky_urls urls)))
                              (max_pages s))
                else 1)"
  proof (cases "crawl s")
    case True
    then have "int (length rs)
        = 1 + int (min (nat (max_pages s - 1)) (achievable w s (seed_filter lucky_urls urls)))"
      by (simp add: rs length_frontier_results min.commute)
    with True show ?thesis by (simp only: quota_length if_True)
  next
    case False
    then show ?thesis by (simp add: rs)
  qed
  with rs show "rs = (website_url s, r) #
                  (if crawl s
                   then take (nat (max_pages s - 1))
                          (frontier_results w s (seed_filter lucky_urls urls))
                   else [])
           \<and> int (length rs) =
               (if crawl s
                then max 1 (min (1 + int (achievable w s (seed_filter lucky_urls urls)))
                              (max_pages s))
                else 1)"
    by blast
qed

lemmas sample_defs =
  sample_world_def sample_scrapper_def sample_article_def empty_filter_def
  is_url_visited_def sbf_contains_def

lemma sample_seed:
  "goto sample_world (website_url sample_scrapper) = None"
  "extract_links sample_world (website_url sample_scrapper)
     = Inr [\<lparr>href = ''/a'', anchor_text = ''A''\<rparr>, \<lparr>href = ''/bad'', anchor_text = ''Bad''\<rparr>]"
  "select_likely_URLS sample_world
       [\<lparr>href = ''/a'', anchor_text = ''A''\<rparr>, \<lparr>href = ''/bad'', anchor_text = ''Bad''\<rparr>]
     = Inr (UrlList [''/a'', ''/bad'', ''/a'', ''/ghost''])"
  "extract_formatted_text sample_world (website_url sample_scrapper) = None"
  "classify_and_extract_news_article sample_world (website_url sample_scrapper)
     = Inr (Some sample_article)"
  "seed_filter (UrlList [''/a'', ''/bad'', ''/a'', ''/ghost''])
       [\<lparr>href = ''/a'', anchor_text = ''A''\<rparr>, \<lparr>href = ''/bad'', anchor_text = ''Bad''\<rparr>]
     = [''/a'', ''/bad'', ''/a'']"
  by (simp_all add: sample_world_def sample_scrapper_def seed_filter_def)

lemma sample_frontier_results:
  "frontier_results sample_world (sample_scrapper\<lparr>max_pages := n\<rparr>) [''/a'', ''/bad'', ''/a'']
     = [(''/a'', Some sample_article), (''/a'', Some sample_article)]"
  "\<forall>u \<in> set [''/a'', ''/bad'', ''/a'']. navigable sample_world (sample_scrapper\<lparr>max_pages := n\<rparr>) u"
  by (simp_all add: frontier_results_def yields_result_def response_of_def navigable_def
      sample_defs)

lemma sample_run:
  "scrape sample_world NoFault 7 sample_scrapper []
     = Inr ([(''https://n.example'', Some sample_article), (''/a'', Some sample_article),
             (''/a'', Some sample_article)],
            sample_scrapper,
            [((''https://n.example'', ''n.example''), (7, Some True)),
             ((''/a'', ''n.example''), (7, Some True))])"
  by (simp add: scrape_def crawl_and_flush_def classify_seed_def sample_defs seed_filter_def
      classify_current_def enqueue_links_same
      add_visited_urls_def insert_transaction_def insert_batch_def insert_ignore_def)

text \<open>
  Runs of C2 on the sample site: with quota 25 the seed and \<open>/a\<close> twice are returned,
  \<open>/bad\<close> is not; with quota 2 the seed and \<open>/a\<close> once.
\<close>

theorem scrape_result_length_witness:
  "(\<exists>s1 L1. scrape sample_world NoFault 7 sample_scrapper []
       = Inr ([(''https://n.example'', Some sample_article), (''/a'', Some sample_article),
               (''/a'', Some sample_article)], s1, L1))
   \<and> (\<exists>s1 L1. scrape sample_world NoFault 7 (sample_scrapper\<lparr>max_pages := 2\<rparr>) []
       = Inr ([(''https://n.example'', Some sample_article), (''/a'', Some sample_article)],
              s1, L1))"
proof -
  have run: "\<exists>s1 L1. scrape sample_world NoFault 7 (sample_scrapper\<lparr>max_pages := n\<rparr>) []
       = Inr ((''https://n.example'', Some sample_article) #
                take (nat (n - 1)) [(''/a'', Some sample_article), (''/a'', Some sample_article)],
              s1, L1)" for n
  proof -
    let ?s = "sample_scrapper\<lparr>max_pages := n\<rparr>"
    have u: "website_url ?s = website_url sample_scrapper" by simp
    note seed = sample_seed(1-5) [folded u]
    have nav: "\<not> crawl ?s
         \<or> (\<forall>u \<in> set (seed_filter (UrlList [''/a'', ''/bad'', ''/a'', ''/ghost''])
              [\<lparr>href = ''/a'', anchor_text = ''A''\<rparr>, \<lparr>href = ''/bad'', anchor_text = ''Bad''\<rparr>]).
              navigable sample_world ?s u)"
      using sample_frontier_results(2) [of n] by (simp only: sample_seed(6)) simp
    from scrape_result_length [OF seed, of NoFault 7 "[]"] nav
    obtain rs s1 L1 where r: "scrape sample_world NoFault 7 ?s [] = Inr (rs, s1, L1)"
      by blast
    from scrape_result_length [OF seed, of NoFault 7 "[]" rs s1 L1] r
    have "rs = (website_url ?s, Some sample_article) #
               (if crawl ?s
                then take (nat (max_pages ?s - 1))
                       (frontier_results sample_world ?s
                          (seed_filter (UrlList [''/a'', ''/bad'', ''/a'', ''/ghost''])
                             [\<lparr>href = ''/a'', anchor_text = ''A''\<rparr>,
                              \<lparr>href = ''/bad'', anchor_text = ''Bad''\<rparr>]))
                else [])"
      by blast
    then have "rs = (''https://n.example'', Some sample_article) #
                take (nat (n - 1)) [(''/a'', Some sample_article), (''/a'', Some sample_article)]"
      by (simp only: sample_seed(6) sample_frontier_results(1)) (simp add: sample_scrapper_def)
    with r show ?thesis by blast
  qed
  have s25: "sample_scrapper\<lparr>max_pages := 25\<rparr> = sample_scrapper"
    by (simp add: sample_scrapper_def)
  from run [of 25] run [of 2] show ?thesis
    by (simp add: s25)
qed

text \<open>
  Claim C2 fails as stated for the quota 0: the seed's result is returned all the same,
  one entry where the minimum with the quota is 0.
\<close>

theorem scrape_quota_zero_counterexample:
  "scrape sample_world NoFault 7 (sample_scrapper\<lparr>max_pages := 0\<rparr>) []
     = Inr ([(''https://n.example'', Some sample_article)],
            sample_scrapper\<lparr>max_pages := 0\<rparr>,
            [((''https://n.example'', ''n.example''), (7, Some True))])
   \<and> int (length [(''https://n.example'', Some sample_article)])
       \<noteq> min (1 + int (achievable sample_world (sample_scrapper\<lparr>max_pages := 0\<rparr>)
                        [''/a'', ''/bad'', ''/a'']))
             (max_pages (sample_scrapper\<lparr>max_pages := 0\<rparr>))"
  by (simp add: scrape_def crawl_and_flush_def classify_seed_def sample_defs seed_filter_def
      add_visited_urls_def insert_transaction_def insert_batch_def insert_ignore_def)

text \<open>
  Claim C4, amended. During one \<open>scrape\<close> call the cache is not changed: the object the
  call leaves is the object it was given, with the cache the constructor built, and
  every dequeued URL is tested against that cache. Whenever \<open>scrape\<close> returns after
  crawling, the URLs of the results behind the seed's are the first \<open>max_pages - 1\<close>
  frontier URLs that this cache does not report and whose classification returns a
  response, in the order of the frontier and as often as they occur in it. So a URL that
  is dequeued again is skipped only if the cache of the constructor reports it, and is
  processed again otherwise.
\<close>

theorem scrape_checks_initial_cache:
  assumes "extract_links w (website_url s) = Inr urls"
      and "select_likely_URLS w urls = Inr lucky_urls"
      and "scrape w f now s L = Inr (rs, s1, L1)"
  shows "s1 = s \<and> visited_urls s1 = visited_urls s
       \<and> (crawl s \<longrightarrow>
            map fst (tl rs) = take (nat (max_pages s - 1))
                                (filter (yields_result w s) (seed_filter lucky_urls urls)))
       \<and> (\<forall>u \<in> set (map fst (tl rs)). \<not> is_url_visited s u)"
proof -
  from scrape_Inr [OF assms(3)] assms(1,2)
  obtain r where s1: "s1 = s"
    and rs: "rs = (website_url s, r) #
                (if crawl s
                 then take (nat (max_pages s - 1))
                        (frontier_results w s (seed_filter lucky_urls urls))
                 else [])"
    by auto
  have eq: "crawl s \<longrightarrow>
            map fst (tl rs) = take (nat (max_pages s - 1))
                                (filter (yields_result w s) (seed_filter lucky_urls urls))"
    by (simp add: rs take_map [symmetric] map_fst_frontier_results)
  have "set (map fst (tl rs)) \<subseteq> set (filter (yields_result w s) (seed_filter lucky_urls urls))"
  proof (cases "crawl s")
    case True
    with eq have "map fst (tl rs) = take (nat (max_pages s - 1))
                                (filter (yields_result w s) (seed_filter lucky_urls urls))"
      by simp
    then show ?thesis by (simp only: set_take_subset)
  next
    case False
    then show ?thesis by (simp add: rs)
  qed
  then have "\<forall>u \<in> set (map fst (tl rs)). \<not> is_url_visited s u"
    by (auto simp: yields_result_def)
  with s1 eq show ?thesis by simp
qed

text \<open>
  A run of C4 on the sample site: \<open>/a\<close> is in the frontier twice, the cache does not
  report it, and it is in the results twice; the object is the one given.
\<close>

theorem scrape_checks_initial_cache_witness:
  "scrape sample_world NoFault 7 sample_scrapper []
     = Inr ([(''https://n.example'', Some sample_article), (''/a'', Some sample_article),
             (''/a'', Some sample_article)],
            sample_scrapper,
            [((''https://n.example'', ''n.example''), (7, Some True)),
             ((''/a'', ''n.example''), (7, Some True))])
   \<and> map fst (tl [(''https://n.example'', Some sample_article), (''/a'', Some sample_article),
                   (''/a'', Some sample_article)])
       = take (nat (max_pages sample_scrapper - 1))
           (filter (yields_result sample_world sample_scrapper) [''/a'', ''/bad'', ''/a''])
   \<and> \<not> is_url_visited sample_scrapper ''/a''"
proof -
  from scrape_checks_initial_cache [OF sample_seed(2,3) sample_run] sample_seed(6)
  have "map fst (tl [(''https://n.example'', Some sample_article), (''/a'', Some sample_article),
                   (''/a'', Some sample_article)])
       = take (nat (max_pages sample_scrapper - 1))
           (filter (yields_result sample_world sample_scrapper) [''/a'', ''/bad'', ''/a''])
     \<and> \<not> is_url_visited sample_scrapper ''/a''"
    by (simp add: sample_scrapper_def)
  with sample_run show ?thesis by simp
qed

text \<open>
  Claim C4 fails as stated: \<open>/a\<close> is dequeued a second time in the same session and
  is classified and recorded again, the visited-check does not skip it; and the cache
  of the object that \<open>scrape\<close> leaves still does not report \<open>/a\<close>.
\<close>

theorem revisit_within_session_counterexample:
  "crawl_loop sample_world sample_scrapper [''/a'', ''/a''] [] []
     = Inr ([(''/a'', Some sample_article), (''/a'', Some sample_article)],
            [(''/a'', Some True), (''/a'', Some True)], sample_scrapper)
   \<and> map_sum id (\<lambda>r. (map fst (fst r), is_url_visited (fst (snd r)) ''/a''))
       (scrape sample_world NoFault 7 sample_scrapper [])
     = Inr ([''https://n.example'', ''/a'', ''/a''], False)"
proof -
  have "crawl_loop sample_world sample_scrapper [''/a'', ''/a''] [] []
     = Inr ([(''/a'', Some sample_article), (''/a'', Some sample_article)],
            [(''/a'', Some True), (''/a'', Some True)], sample_scrapper)"
    by (simp add: sample_defs classify_current_def enqueue_links_same)
  moreover have "map_sum id (\<lambda>r. (map fst (fst r), is_url_visited (fst (snd r)) ''/a''))
       (scrape sample_world NoFault 7 sample_scrapper [])
     = Inr ([''https://n.example'', ''/a'', ''/a''], False)"
    by (simp add: sample_run) (simp add: sample_defs)
  ultimately show ?thesis by blast
qed

text \<open>
  Claim C1 on a dequeued page. The page \<open>/a\<close> has the link \<open>/c\<close> and the triage suggests
  \<open>/c\<close>, so suggested and observed URLs intersect in \<open>/c\<close>; the filter of the loop
  keeps nothing and the frontier is as before, where the filter of the seed page would
  have kept \<open>/c\<close>.
\<close>

theorem loop_filter_drops_observed_links:
  "extract_links sample_world ''/a'' = Inr [\<lparr>href = ''/c'', anchor_text = ''C''\<rparr>]
   \<and> select_likely_URLS sample_world [\<lparr>href = ''/c'', anchor_text = ''C''\<rparr>] = Inr (UrlList [''/c''])
   \<and> map href [\<lparr>href = ''/c'', anchor_text = ''C''\<rparr>] = [''/c'']
   \<and> loop_filter (UrlList [''/c'']) [\<lparr>href = ''/c'', anchor_text = ''C''\<rparr>] = []
   \<and> enqueue_links sample_world [\<lparr>href = ''/c'', anchor_text = ''C''\<rparr>] [''/bad'', ''/a'']
       = [''/bad'', ''/a'']
   \<and> seed_filter (UrlList [''/c'']) [\<lparr>href = ''/c'', anchor_text = ''C''\<rparr>] = [''/c'']"
  by (simp add: sample_world_def loop_filter_Nil enqueue_links_same seed_filter_def)

text \<open>
  Claim C3 on a dequeued URL whose classification raises. \<open>/bad\<close> is in the frontier of
  the sample site and the cache does not report it, so it is navigated to; the exception
  leaves the visited batch as it was, and the ledger after the flush has rows for the
  seed and \<open>/a\<close> only.
\<close>

theorem failed_classification_not_recorded:
  "classify_and_extract_news_article sample_world ''/bad'' = Inl CollaboratorError
   \<and> \<not> is_url_visited sample_scrapper ''/bad''
   \<and> goto sample_world ''/bad'' = None
   \<and> classify_current sample_world ''/bad'' [] [(''https://n.example'', Some True)]
       = ([], [(''https://n.example'', Some True)])
   \<and> scrape sample_world NoFault 7 sample_scrapper []
       = Inr ([(''https://n.example'', Some sample_article), (''/a'', Some sample_article),
               (''/a'', Some sample_article)],
              sample_scrapper,
              [((''https://n.example'', ''n.example''), (7, Some True)),
               ((''/a'', ''n.example''), (7, Some True))])"
  using sample_run
  by (simp add: classify_current_def) (simp add: sample_defs)

end
